theory Spec2Isabelle
  imports Main "HOL-Library.Char_ord" "HOL-Library.List_Lexorder" "HOL-Library.Sublist"
begin

section \<open>Python strings\<close>

text \<open>
  A Python \<open>str\<close> is a sequence of code points. The model takes strings over the
  8-bit type \<^typ>\<open>char\<close>, one \<^typ>\<open>char\<close> per code point, so it covers the code points
  below 256 and \<^const>\<open>length\<close> counts what \<open>len\<close> counts. Strings are compared as
  Python compares them: lexicographically, code point by code point.
\<close>

definition isspace :: "char \<Rightarrow> bool" where
  \<comment> \<open>\<open>str.isspace\<close>, which is also what \<open>str.strip()\<close> removes and what \<open>\s\<close> matches\<close>
  "isspace c = (c \<in> set [CHR 0x09, CHR 0x0A, CHR 0x0B, CHR 0x0C, CHR 0x0D, CHR 0x1C,
                           CHR 0x1D, CHR 0x1E, CHR 0x1F, CHR 0x20, CHR 0x85, CHR 0xA0])"

definition strip :: "string \<Rightarrow> string" where
  \<comment> \<open>\<open>s.strip()\<close>\<close>
  "strip s = rev (dropWhile isspace (rev (dropWhile isspace s)))"

definition upper_letters :: string where
  \<comment> \<open>the code points below 256 that \<open>lower\<close> changes: A to Z, and U+00C0 to U+00DE
      without the multiplication sign U+00D7\<close>
  "upper_letters = ''ABCDEFGHIJKLMNOPQRSTUVWXYZ'' @
     [CHR 0xC0, CHR 0xC1, CHR 0xC2, CHR 0xC3, CHR 0xC4, CHR 0xC5, CHR 0xC6, CHR 0xC7,
      CHR 0xC8, CHR 0xC9, CHR 0xCA, CHR 0xCB, CHR 0xCC, CHR 0xCD, CHR 0xCE, CHR 0xCF,
      CHR 0xD0, CHR 0xD1, CHR 0xD2, CHR 0xD3, CHR 0xD4, CHR 0xD5, CHR 0xD6,
      CHR 0xD8, CHR 0xD9, CHR 0xDA, CHR 0xDB, CHR 0xDC, CHR 0xDD, CHR 0xDE]"

definition lower_letters :: string where
  \<comment> \<open>what \<open>lower\<close> makes of them, each 32 further on\<close>
  "lower_letters = ''abcdefghijklmnopqrstuvwxyz'' @
     [CHR 0xE0, CHR 0xE1, CHR 0xE2, CHR 0xE3, CHR 0xE4, CHR 0xE5, CHR 0xE6, CHR 0xE7,
      CHR 0xE8, CHR 0xE9, CHR 0xEA, CHR 0xEB, CHR 0xEC, CHR 0xED, CHR 0xEE, CHR 0xEF,
      CHR 0xF0, CHR 0xF1, CHR 0xF2, CHR 0xF3, CHR 0xF4, CHR 0xF5, CHR 0xF6,
      CHR 0xF8, CHR 0xF9, CHR 0xFA, CHR 0xFB, CHR 0xFC, CHR 0xFD, CHR 0xFE]"

definition lower_char :: "char \<Rightarrow> char" where
  "lower_char c = (case map_of (zip upper_letters lower_letters) c of Some l \<Rightarrow> l | None \<Rightarrow> c)"

definition lower :: "string \<Rightarrow> string" where
  \<comment> \<open>\<open>s.lower()\<close>\<close>
  "lower s = map lower_char s"

definition startswith :: "string \<Rightarrow> string \<Rightarrow> bool" where
  \<comment> \<open>\<open>s.startswith(p)\<close>\<close>
  "startswith s p = (take (length p) s = p)"

definition str_in :: "string \<Rightarrow> string \<Rightarrow> bool" where
  \<comment> \<open>\<open>k in s\<close>: \<open>k\<close> occurs in \<open>s\<close> as a contiguous substring\<close>
  "str_in k s = sublist k s"

section \<open>Exceptions\<close>

text \<open>
  The exceptions the program meets, all of them subclasses of \<open>Exception\<close>. A
  computation that may raise returns a sum, the exception on the left. The exceptions of
  \<open>requests\<close> stand for their subclasses too: \<open>ConnectionError\<close> for \<open>ConnectTimeout\<close>,
  \<open>SSLError\<close> and \<open>ProxyError\<close>, \<open>InvalidURL\<close> for \<open>InvalidSchema\<close> and \<open>MissingSchema\<close>,
  \<open>ChunkedEncodingError\<close> for \<open>ContentDecodingError\<close> and the other failures of reading a
  body.
\<close>

datatype exn =
    ValueError
  | KeyError
  | HTTPError
  | RetryError
  | ConnectionError
  | InvalidHeader
  | TooManyRedirects
  | InvalidURL
  | ChunkedEncodingError
  | OSError

definition is_RequestException :: "exn \<Rightarrow> bool" where
  "is_RequestException e =
     (e = HTTPError \<or> e = RetryError \<or> e = ConnectionError \<or> e = InvalidHeader
      \<or> e = TooManyRedirects \<or> e = InvalidURL \<or> e = ChunkedEncodingError)"

section \<open>Date normalizer\<close>

subsection \<open>The format as a regular expression\<close>

text \<open>
  \<open>datetime.strptime\<close> turns the format into a regular expression and matches the
  text against it, ignoring case. The model covers the five directives and the
  literals of \<open>DATE_FORMATS\<close>: \<open>%B\<close> and \<open>%b\<close> (month names of the C locale), \<open>%d\<close>,
  \<open>%m\<close> and \<open>%Y\<close>; a run of white space in the format stands for \<open>\s+\<close>; any other
  character stands for itself.
\<close>

type_synonym ymd = "nat \<times> nat \<times> nat"

datatype directive = Dir_B | Dir_b | Dir_d | Dir_m | Dir_Y

datatype re_item = Group directive | Whitespace | Literal char

definition directive_of :: "char \<Rightarrow> directive option" where
  "directive_of c =
     (if c = CHR ''B'' then Some Dir_B else if c = CHR ''b'' then Some Dir_b
      else if c = CHR ''d'' then Some Dir_d else if c = CHR ''m'' then Some Dir_m
      else if c = CHR ''Y'' then Some Dir_Y else None)"

function pattern :: "string \<Rightarrow> re_item list option" where
  \<comment> \<open>\<open>TimeRE.pattern\<close>; \<open>None\<close> is a stray \<open>%\<close> or a directive outside the five\<close>
  "pattern [] = Some []"
| "pattern (c # cs) =
     (if c = CHR ''%'' then
        (case cs of
           [] \<Rightarrow> None
         | d # ds \<Rightarrow>
             (case directive_of d of
                None \<Rightarrow> None
              | Some g \<Rightarrow> map_option ((#) (Group g)) (pattern ds)))
      else if isspace c then map_option ((#) Whitespace) (pattern (dropWhile isspace cs))
      else map_option ((#) (Literal c)) (pattern cs))"
  by pat_completeness auto
termination
  by (relation "measure length") (auto simp: length_dropWhile_le le_imp_less_Suc)

type_synonym char_class = "char \<Rightarrow> bool"

definition isdigit :: char_class where
  \<comment> \<open>\<open>\d\<close>\<close>
  "isdigit c = (CHR ''0'' \<le> c \<and> c \<le> CHR ''9'')"

definition in_range :: "char \<Rightarrow> char \<Rightarrow> char_class" where
  \<comment> \<open>\<open>[lo-hi]\<close>\<close>
  "in_range lo hi c = (lo \<le> c \<and> c \<le> hi)"

definition ignorecase :: "char \<Rightarrow> char_class" where
  \<comment> \<open>a literal character under \<open>re.IGNORECASE\<close>\<close>
  "ignorecase p c = (lower_char c = lower_char p)"

definition f_month :: "string list" where
  "f_month = ['''', ''january'', ''february'', ''march'', ''april'', ''may'', ''june'', ''july'',
              ''august'', ''september'', ''october'', ''november'', ''december'']"

definition a_month :: "string list" where
  "a_month = ['''', ''jan'', ''feb'', ''mar'', ''apr'', ''may'', ''jun'', ''jul'', ''aug'', ''sep'',
              ''oct'', ''nov'', ''dec'']"

definition seqToRE :: "string list \<Rightarrow> char_class list list" where
  \<comment> \<open>the names as alternatives, longest first, equal lengths in their given order\<close>
  "seqToRE to_convert = map (map ignorecase) (rev (sort_key length (rev to_convert)))"

definition directive_re :: "directive \<Rightarrow> char_class list list" where
  \<comment> \<open>the alternatives of each directive's group, in the order the expression lists them;
      an alternative is a sequence of character classes\<close>
  "directive_re g =
     (case g of
        Dir_d \<Rightarrow> [[(=) CHR ''3'', in_range CHR ''0'' CHR ''1''],
                  [in_range CHR ''1'' CHR ''2'', isdigit],
                  [(=) CHR ''0'', in_range CHR ''1'' CHR ''9''],
                  [in_range CHR ''1'' CHR ''9''],
                  [(=) CHR '' '', in_range CHR ''1'' CHR ''9'']]
      | Dir_m \<Rightarrow> [[(=) CHR ''1'', in_range CHR ''0'' CHR ''2''],
                  [(=) CHR ''0'', in_range CHR ''1'' CHR ''9''],
                  [in_range CHR ''1'' CHR ''9'']]
      | Dir_Y \<Rightarrow> [[isdigit, isdigit, isdigit, isdigit]]
      | Dir_B \<Rightarrow> seqToRE (tl f_month)
      | Dir_b \<Rightarrow> seqToRE (tl a_month))"

text \<open>
  Matching backtracks. Each matcher returns every way it can match at the head of the
  text, in the order the engine tries them; the head of the list for the whole
  expression is the match \<open>re.match\<close> returns.
\<close>

definition re_alt :: "char_class list \<Rightarrow> string \<Rightarrow> (string \<times> string) list" where
  "re_alt cls s =
     (if length cls \<le> length s \<and> list_all2 (\<lambda>p c. p c) cls (take (length cls) s)
      then [(take (length cls) s, drop (length cls) s)] else [])"

definition re_alts :: "char_class list list \<Rightarrow> string \<Rightarrow> (string \<times> string) list" where
  "re_alts alts s = concat (map (\<lambda>a. re_alt a s) alts)"

definition re_spaces :: "string \<Rightarrow> string list" where
  \<comment> \<open>\<open>\s+\<close> is greedy: the longest run first, then shorter ones, at least one character\<close>
  "re_spaces s = map (\<lambda>k. drop k s) (rev [1..<Suc (length (takeWhile isspace s))])"

fun re_match :: "re_item list \<Rightarrow> string \<Rightarrow> ((directive \<times> string) list \<times> string) list" where
  \<comment> \<open>the groups matched and the text left over\<close>
  "re_match [] s = [([], s)]"
| "re_match (Group g # its) s =
     concat (map (\<lambda>(txt, rest). map (\<lambda>(gs, r). ((g, txt) # gs, r)) (re_match its rest))
                 (re_alts (directive_re g) s))"
| "re_match (Whitespace # its) s = concat (map (re_match its) (re_spaces s))"
| "re_match (Literal c # its) s =
     (case s of [] \<Rightarrow> [] | x # xs \<Rightarrow> if ignorecase c x then re_match its xs else [])"

subsection \<open>From the groups to a date\<close>

definition py_int :: "string \<Rightarrow> exn + nat" where
  \<comment> \<open>\<open>int(s)\<close> on the text of a group: white space around the digits is ignored\<close>
  "py_int s =
     (let t = strip s
      in if t \<noteq> [] \<and> list_all isdigit t
         then Inr (fold (\<lambda>c n. 10 * n + (of_char c - 48)) t 0)
         else Inl ValueError)"

fun list_index :: "'a list \<Rightarrow> 'a \<Rightarrow> exn + nat" where
  \<comment> \<open>\<open>xs.index(x)\<close>\<close>
  "list_index [] x = Inl ValueError"
| "list_index (y # ys) x =
     (if y = x then Inr 0
      else (case list_index ys x of Inl e \<Rightarrow> Inl e | Inr i \<Rightarrow> Inr (Suc i)))"

fun convert :: "(directive \<times> string) list \<Rightarrow> nat option \<times> nat \<times> nat
                  \<Rightarrow> exn + (nat option \<times> nat \<times> nat)" where
  \<comment> \<open>the loop over \<open>found_dict\<close>, updating year, month and day\<close>
  "convert [] cur = Inr cur"
| "convert ((g, txt) # found) (year, month, day) =
     (case (case g of
              Dir_Y \<Rightarrow> (case py_int txt of Inl e \<Rightarrow> Inl e | Inr n \<Rightarrow> Inr (Some n, month, day))
            | Dir_m \<Rightarrow> (case py_int txt of Inl e \<Rightarrow> Inl e | Inr n \<Rightarrow> Inr (year, n, day))
            | Dir_B \<Rightarrow> (case list_index f_month (lower txt) of
                          Inl e \<Rightarrow> Inl e | Inr n \<Rightarrow> Inr (year, n, day))
            | Dir_b \<Rightarrow> (case list_index a_month (lower txt) of
                          Inl e \<Rightarrow> Inl e | Inr n \<Rightarrow> Inr (year, n, day))
            | Dir_d \<Rightarrow> (case py_int txt of Inl e \<Rightarrow> Inl e | Inr n \<Rightarrow> Inr (year, month, n)))
      of Inl e \<Rightarrow> Inl e | Inr cur \<Rightarrow> convert found cur)"

definition isleap :: "nat \<Rightarrow> bool" where
  "isleap y = (y mod 4 = 0 \<and> (y mod 100 \<noteq> 0 \<or> y mod 400 = 0))"

definition days_in_month :: "nat \<Rightarrow> nat \<Rightarrow> nat" where
  "days_in_month y m =
     (if m = 2 then (if isleap y then 29 else 28)
      else if m = 4 \<or> m = 6 \<or> m = 9 \<or> m = 11 then 30 else 31)"

definition datetime_date :: "nat \<Rightarrow> nat \<Rightarrow> nat \<Rightarrow> exn + ymd" where
  \<comment> \<open>the constructor refuses a date that is not in the calendar\<close>
  "datetime_date y m d =
     (if 1 \<le> y \<and> y \<le> 9999 \<and> 1 \<le> m \<and> m \<le> 12 \<and> 1 \<le> d \<and> d \<le> days_in_month y m
      then Inr (y, m, d) else Inl ValueError)"

definition strptime :: "string \<Rightarrow> string \<Rightarrow> exn + ymd" where
  \<comment> \<open>\<open>datetime.strptime(data_string, format)\<close>, as far as year, month and day go. It raises
      \<open>ValueError\<close> when the text does not match, when the match stops before the end
      of the text, and when the date is not in the calendar.\<close>
  "strptime data_string format =
     (case pattern format of
        None \<Rightarrow> Inl ValueError
      | Some format_regex \<Rightarrow>
          (case re_match format_regex data_string of
             [] \<Rightarrow> Inl ValueError
           | (found, rest) # others \<Rightarrow>
               if rest \<noteq> [] then Inl ValueError
               else (case convert found (None, 1, 1) of
                       Inl e \<Rightarrow> Inl e
                     | Inr (year, month, day) \<Rightarrow>
                         datetime_date (case year of None \<Rightarrow> 1900 | Some y \<Rightarrow> y) month day)))"

subsection \<open>Formatting\<close>

definition digit_char :: "nat \<Rightarrow> char" where
  "digit_char n = ''0123456789'' ! (n mod 10)"

fun decimal :: "nat \<Rightarrow> string" where
  "decimal n = (if n < 10 then [digit_char n] else decimal (n div 10) @ [digit_char (n mod 10)])"

declare decimal.simps [simp del]

definition zfill :: "nat \<Rightarrow> string \<Rightarrow> string" where
  "zfill w s = replicate (w - length s) CHR ''0'' @ s"

text \<open>
  \<open>strftime("%Y-%m-%d")\<close>. Month and day are always two digits. What \<open>%Y\<close> gives for a
  year below 1000 depends on the platform: some fill the year with zeros to four
  digits, others (the GNU C library under older interpreters) write it as it is. The
  parameter \<open>pad\<close> says which; from the year 1000 on it makes no difference.
\<close>

definition strftime :: "bool \<Rightarrow> ymd \<Rightarrow> string" where
  "strftime pad dt =
     (case dt of (y, m, d) \<Rightarrow>
        (if pad then zfill 4 (decimal y) else decimal y)
          @ ''-'' @ zfill 2 (decimal m) @ ''-'' @ zfill 2 (decimal d))"

definition YYYY_MM_DD :: "ymd \<Rightarrow> string" where
  \<comment> \<open>the text \<open>YYYY-MM-DD\<close> of a date, written out digit by digit\<close>
  "YYYY_MM_DD dt =
     (case dt of (y, m, d) \<Rightarrow>
        [digit_char (y div 1000 mod 10), digit_char (y div 100 mod 10),
         digit_char (y div 10 mod 10), digit_char (y mod 10), CHR ''-'',
         digit_char (m div 10 mod 10), digit_char (m mod 10), CHR ''-'',
         digit_char (d div 10 mod 10), digit_char (d mod 10)])"

subsection \<open>\<open>parse_date\<close>\<close>

definition DATE_FORMATS :: "string list" where
  "DATE_FORMATS = [''%B %d, %Y'', ''%b %d, %Y'', ''%Y-%m-%d'', ''%m/%d/%Y'']"

fun try_formats :: "bool \<Rightarrow> string \<Rightarrow> string list \<Rightarrow> exn + string option" where
  \<comment> \<open>the loop \<open>for fmt in DATE_FORMATS\<close>: \<open>except ValueError\<close> goes on to the next
      format, any other exception leaves the function\<close>
  "try_formats pad date_str [] = Inr None"
| "try_formats pad date_str (fmt # fmts) =
     (case strptime date_str fmt of
        Inr dt \<Rightarrow> Inr (Some (strftime pad dt))
      | Inl e \<Rightarrow> if e = ValueError then try_formats pad date_str fmts else Inl e)"

definition parse_date :: "bool \<Rightarrow> string \<Rightarrow> exn + string option" where
  "parse_date pad date_str = try_formats pad (strip date_str) DATE_FORMATS"

section \<open>Parsed markup\<close>

text \<open>
  The tree BeautifulSoup builds: a \<open>Tag\<close> has a name, a dictionary of attributes
  (an association list read with \<^const>\<open>map_of\<close>) and its children in document
  order; a \<open>NavigableString\<close> is a piece of text; \<open>Comment\<close> stands for the strings
  that \<open>get_text\<close> leaves out (comments, declarations, script and style bodies).
\<close>

datatype node =
    Tag (name: string) (attrs: "(string \<times> string) list") (contents: "node list")
  | NavigableString string
  | Comment string

fun descendants :: "node \<Rightarrow> node list" where
  \<comment> \<open>\<open>tag.descendants\<close>: every node below the tag, in document order\<close>
  "descendants (Tag n a cs) = concat (map (\<lambda>c. c # descendants c) cs)"
| "descendants (NavigableString s) = []"
| "descendants (Comment s) = []"

text \<open>
  The two kinds of attribute filter the program passes to \<open>find\<close> and \<open>find_all\<close>:
  \<open>href=True\<close> (the attribute is there) and \<open>class_=re.compile("a|b|c")\<close>, a regular
  expression that is an alternation of literal strings, applied with \<open>search\<close>.
\<close>

datatype attr_filter =
    HasAttr string
  | ClassSearch "string list"

definition re_search :: "string list \<Rightarrow> string \<Rightarrow> bool" where
  \<comment> \<open>\<open>re.compile("a|b|c").search(s)\<close> finds a match\<close>
  "re_search alts s = list_ex (\<lambda>a. str_in a s) alts"

fun nonwhitespace_findall :: "string \<Rightarrow> string \<Rightarrow> string list" where
  \<comment> \<open>\<open>re.findall(r"\S+", s)\<close>, the way a \<open>class\<close> attribute is split; the first
      argument is the token being read, reversed\<close>
  "nonwhitespace_findall acc [] = (if acc = [] then [] else [rev acc])"
| "nonwhitespace_findall acc (c # cs) =
     (if isspace c
      then (if acc = [] then nonwhitespace_findall [] cs
            else rev acc # nonwhitespace_findall [] cs)
      else nonwhitespace_findall (c # acc) cs)"

fun join_space :: "string list \<Rightarrow> string" where
  \<comment> \<open>\<open>" ".join(xs)\<close>\<close>
  "join_space [] = []"
| "join_space [x] = x"
| "join_space (x # y # ys) = x @ '' '' @ join_space (y # ys)"

fun matches_attr :: "node \<Rightarrow> attr_filter \<Rightarrow> bool" where
  "matches_attr (Tag n a cs) (HasAttr k) = (map_of a k \<noteq> None)"
| "matches_attr (Tag n a cs) (ClassSearch alts) =
     (case map_of a ''class'' of
        None \<Rightarrow> False
      | Some v \<Rightarrow>
          (let classes = nonwhitespace_findall [] v
           in list_ex (re_search alts) classes \<or> re_search alts (join_space classes)))"
| "matches_attr (NavigableString s) f = False"
| "matches_attr (Comment s) f = False"

fun matches :: "string \<Rightarrow> attr_filter list \<Rightarrow> node \<Rightarrow> bool" where
  "matches nm fs (Tag n a cs) = (n = nm \<and> list_all (matches_attr (Tag n a cs)) fs)"
| "matches nm fs (NavigableString s) = False"
| "matches nm fs (Comment s) = False"

definition find_all :: "node \<Rightarrow> string \<Rightarrow> attr_filter list \<Rightarrow> node list" where
  \<comment> \<open>\<open>tag.find_all(name, **attrs)\<close>\<close>
  "find_all t nm fs = filter (matches nm fs) (descendants t)"

definition find :: "node \<Rightarrow> string \<Rightarrow> attr_filter list \<Rightarrow> node option" where
  \<comment> \<open>\<open>tag.find(name, **attrs)\<close>: the first result of \<open>find_all\<close>, or \<open>None\<close>\<close>
  "find t nm fs = (case find_all t nm fs of [] \<Rightarrow> None | x # xs \<Rightarrow> Some x)"

definition or_else :: "'a option \<Rightarrow> 'a option \<Rightarrow> 'a option" where
  \<comment> \<open>\<open>a or b\<close> on results of \<open>find\<close>: a \<open>Tag\<close> is always true, \<open>None\<close> is false\<close>
  "or_else a b = (case a of Some x \<Rightarrow> Some x | None \<Rightarrow> b)"

definition get_text :: "node \<Rightarrow> string" where
  \<comment> \<open>\<open>tag.get_text(strip=True)\<close>: the text strings below the tag, each stripped,
      the empty ones dropped, joined with nothing between them\<close>
  "get_text t =
     concat (filter (\<lambda>s. s \<noteq> [])
       (List.map_filter (\<lambda>d. case d of NavigableString s \<Rightarrow> Some (strip s) | _ \<Rightarrow> None)
          (descendants t)))"

section \<open>Tag classifier\<close>

definition DEFAULT_TAGS :: "string set" where
  "DEFAULT_TAGS = {''databases''}"

definition tag_keywords :: "(string \<times> string list) list" where
  "tag_keywords =
    [(''distributed-systems'', [''distributed'', ''multi-region'', ''geo-distributed'', ''replication'']),
     (''reliability'', [''reliability'', ''resilience'', ''failover'', ''uptime'']),
     (''disaster-recovery'', [''disaster recovery'', ''backup'', ''restore'', ''recovery'']),
     (''product-management'', [''product'', ''pricing'', ''packaging'', ''strategy'']),
     (''pricing'', [''pricing'', ''cost'', ''billing'']),
     (''cloud'', [''cloud'', ''aws'', ''gcp'', ''azure'']),
     (''security'', [''security'', ''authentication'', ''encryption'']),
     (''performance'', [''performance'', ''optimization'', ''latency'']),
     (''migration'', [''migration'', ''migrate'', ''migrating'']),
     (''architecture'', [''architecture'', ''design'', ''pattern''])]"

definition add_tag :: "string \<Rightarrow> string \<times> string list \<Rightarrow> string set \<Rightarrow> string set" where
  \<comment> \<open>one round of the loop over \<open>tag_keywords.items()\<close>\<close>
  "add_tag combined_text item tags_so_far =
     (if list_ex (\<lambda>keyword. str_in keyword combined_text) (snd item)
      then insert (fst item) tags_so_far else tags_so_far)"

definition tag_set :: "string \<Rightarrow> string \<Rightarrow> string set" where
  \<comment> \<open>the set \<open>tags\<close> when the loop has ended\<close>
  "tag_set ttl exc = fold (add_tag (lower (ttl @ '' '' @ exc))) tag_keywords DEFAULT_TAGS"

definition extract_tags :: "node \<Rightarrow> string \<Rightarrow> string \<Rightarrow> string list" where
  \<comment> \<open>\<open>sorted(list(tags))\<close>\<close>
  "extract_tags post_card ttl exc = sorted_list_of_set (tag_set ttl exc)"

section \<open>Post record\<close>

definition EXCERPT_MAX_LENGTH :: nat where
  "EXCERPT_MAX_LENGTH = 200"

record BlogPost =
  title :: string
  url :: string
  date :: "string option"
  image :: "string option"
  excerpt :: string
  tags :: "string list"

definition BlogPost_init ::
  "string \<Rightarrow> string \<Rightarrow> string option \<Rightarrow> string option \<Rightarrow> string \<Rightarrow> string list option
     \<Rightarrow> BlogPost" where
  \<comment> \<open>\<open>BlogPost.__init__\<close>; an empty string and an empty list are false\<close>
  "BlogPost_init title_arg url_arg date_arg image_arg excerpt_arg tags_arg =
     \<lparr>title = title_arg,
      url = url_arg,
      date = date_arg,
      image = image_arg,
      excerpt = (if excerpt_arg \<noteq> [] then take EXCERPT_MAX_LENGTH excerpt_arg else []),
      tags = (case tags_arg of
                None \<Rightarrow> sorted_list_of_set DEFAULT_TAGS
              | Some ts \<Rightarrow> if ts \<noteq> [] then ts else sorted_list_of_set DEFAULT_TAGS)\<rparr>"

datatype json = JString string | JNull | JArray "string list"

definition to_dict :: "BlogPost \<Rightarrow> (string \<times> json) list" where
  "to_dict p =
     [(''title'', JString (title p)),
      (''url'', JString (url p)),
      (''date'', (case date p of None \<Rightarrow> JNull | Some d \<Rightarrow> JString d)),
      (''image'', (case image p of None \<Rightarrow> JNull | Some i \<Rightarrow> JString i)),
      (''excerpt'', JString (excerpt p)),
      (''source'', JString ''cockroach-labs''),
      (''tags'', JArray (tags p))]"

section \<open>Record extractor\<close>

fun get_attr :: "node \<Rightarrow> string \<Rightarrow> string option" where
  \<comment> \<open>\<open>tag.attrs.get(key)\<close>\<close>
  "get_attr (Tag n a cs) k = map_of a k"
| "get_attr (NavigableString s) k = None"
| "get_attr (Comment s) k = None"

definition getitem :: "node \<Rightarrow> string \<Rightarrow> exn + string" where
  \<comment> \<open>\<open>tag[key]\<close>\<close>
  "getitem t k = (case get_attr t k of None \<Rightarrow> Inl KeyError | Some v \<Rightarrow> Inr v)"

text \<open>
  \<open>extract_post_data\<close>. The body is inside \<open>try\<close>, and \<open>except Exception\<close> returns
  \<open>None\<close>: every exception of a step becomes the result \<open>None\<close>.
\<close>

definition extract_post_data :: "bool \<Rightarrow> node \<Rightarrow> BlogPost option" where
  "extract_post_data pad post_card =
     (let title_elem = or_else (find post_card ''h2'' [])
                         (or_else (find post_card ''h3'' []) (find post_card ''a'' []))
      in case title_elem of
           None \<Rightarrow> None
         | Some title_tag \<Rightarrow>
             (let title = get_text title_tag;
                  link_elem = find post_card ''a'' [HasAttr ''href'']
              in case link_elem of
                   None \<Rightarrow> None
                 | Some link_tag \<Rightarrow>
                     (case getitem link_tag ''href'' of
                        Inl e \<Rightarrow> None
                      | Inr href \<Rightarrow>
                          (let url = (if \<not> startswith href ''http''
                                      then ''https://www.cockroachlabs.com'' @ href else href);
                               img_elem = find post_card ''img'' [];
                               image_url =
                                 (case img_elem of
                                    None \<Rightarrow> None
                                  | Some img_tag \<Rightarrow>
                                      (case get_attr img_tag ''src'' of
                                         None \<Rightarrow> None
                                       | Some src \<Rightarrow>
                                           if src \<noteq> [] \<and> \<not> startswith src ''http''
                                           then Some (''https://www.cockroachlabs.com'' @ src)
                                           else Some src));
                               excerpt_elem =
                                 or_else (find post_card ''p'' [])
                                   (find post_card ''div''
                                      [ClassSearch [''excerpt'', ''description'', ''summary'']]);
                               excerpt = (case excerpt_elem of
                                            Some e \<Rightarrow> get_text e | None \<Rightarrow> []);
                               date_elem =
                                 or_else (find post_card ''time'' [])
                                   (find post_card ''span'' [ClassSearch [''date'']]);
                               date_str = (case date_elem of
                                             Some e \<Rightarrow> Some (get_text e) | None \<Rightarrow> None)
                           in case (case date_str of
                                      None \<Rightarrow> Inr None
                                    | Some s \<Rightarrow> if s \<noteq> [] then parse_date pad s else Inr None)
                              of Inl e \<Rightarrow> None
                               | Inr published_date \<Rightarrow>
                                   Some (BlogPost_init title url published_date image_url excerpt
                                           (Some (extract_tags post_card title excerpt)))))))"

subsection \<open>Absolute URLs and relative references\<close>




section \<open>HTTP client\<close>

text \<open>
  The session of \<open>create_session_with_retries\<close> is a \<open>requests.Session\<close> whose adapter
  carries the \<open>Retry\<close> object of the program. The retry loop is \<open>urllib3\<close>'s
  (\<open>HTTPConnectionPool.urlopen\<close> and \<open>util.retry.Retry\<close>); the following of redirects is
  \<open>requests\<close>' (\<open>Session.send\<close> and \<open>Session.resolve_redirects\<close>).
\<close>

datatype retry_after_header =
    Seconds nat
  | HttpDate int
  | Unparsable
  | Empty

datatype location_header =
    Requestable
  | Unrequestable
  | Malformed
  | NoTarget

record Response =
  status_code :: nat
  retry_after :: "retry_after_header option"
  location :: "location_header option"
  content_ok :: bool
  content :: node

text \<open>
  A \<open>Response\<close> is what the server answers: its status; its \<open>Retry-After\<close> header when it
  has one; its \<open>Location\<close> header when it has one; whether its body can be read to the
  end; and its body, given as the tree \<open>html.parser\<close> reads from it.

  A \<open>Retry-After\<close> header is a number of seconds in digits, or an HTTP date, given by the
  whole seconds from the moment the header is read to that date (negative for a date in
  the past), or a text that is neither, or the empty text. A \<open>Location\<close> header is a
  URL the session can request, or one it refuses to request (\<open>InvalidSchema\<close>,
  \<open>InvalidURL\<close>), or a text that it cannot read as a URL (\<open>urlparse\<close> or the decoding of
  the header raises \<open>ValueError\<close>), or the empty text.

  One request meets either a response or a failure of the network.
\<close>

datatype outcome =
    Reply Response
  | ConnectTimeoutError
  | ReadError
  | OtherError

record Retry =
  total :: int
  backoff_factor :: nat
  status_forcelist :: "nat list"
  allowed_methods :: "string list"
  respect_retry_after_header :: bool
  raise_on_status :: bool
  retry_after_max :: "nat option"
  history :: "nat option list"

definition MAX_RETRIES :: int where
  "MAX_RETRIES = 3"

definition RETRY_BACKOFF_FACTOR :: nat where
  "RETRY_BACKOFF_FACTOR = 1"

definition DEFAULT_RETRY_AFTER_MAX :: nat where
  \<comment> \<open>\<open>Retry.DEFAULT_RETRY_AFTER_MAX\<close>, six hours\<close>
  "DEFAULT_RETRY_AFTER_MAX = 21600"

definition retry_strategy :: Retry where
  \<comment> \<open>the \<open>Retry\<close> object of \<open>create_session_with_retries\<close>; what the call does not set
      has the library's default. The limit \<open>retry_after_max\<close> is the default of a
      \<open>urllib3\<close> that has this parameter; an older \<open>urllib3\<close> has no such limit, which is
      \<open>None\<close> here.\<close>
  "retry_strategy =
     \<lparr>total = MAX_RETRIES,
      backoff_factor = RETRY_BACKOFF_FACTOR,
      status_forcelist = [500, 502, 503, 504],
      allowed_methods = [''GET'', ''HEAD''],
      respect_retry_after_header = True,
      raise_on_status = True,
      retry_after_max = Some DEFAULT_RETRY_AFTER_MAX,
      history = []\<rparr>"

definition RETRY_AFTER_STATUS_CODES :: "nat list" where
  "RETRY_AFTER_STATUS_CODES = [413, 429, 503]"

definition DEFAULT_BACKOFF_MAX :: nat where
  "DEFAULT_BACKOFF_MAX = 120"

definition is_method_retryable :: "Retry \<Rightarrow> string \<Rightarrow> bool" where
  "is_method_retryable r method =
     (\<not> (allowed_methods r \<noteq> [] \<and> method \<notin> set (allowed_methods r)))"

definition is_retry :: "Retry \<Rightarrow> string \<Rightarrow> nat \<Rightarrow> bool \<Rightarrow> bool" where
  \<comment> \<open>\<open>Retry.is_retry(method, status_code, has_retry_after)\<close>\<close>
  "is_retry r method status has_retry_after =
     (if \<not> is_method_retryable r method then False
      else if status_forcelist r \<noteq> [] \<and> status \<in> set (status_forcelist r) then True
      else total r \<noteq> 0 \<and> respect_retry_after_header r \<and> has_retry_after
           \<and> status \<in> set RETRY_AFTER_STATUS_CODES)"

definition is_exhausted :: "Retry \<Rightarrow> bool" where
  \<comment> \<open>of the counters only \<open>total\<close> is set\<close>
  "is_exhausted r = (total r < 0)"

definition increment :: "Retry \<Rightarrow> string \<Rightarrow> outcome \<Rightarrow> exn + Retry" where
  \<comment> \<open>\<open>Retry.increment\<close>: one retry fewer, the failure added to the history. A read error
      of a method that may not be retried is raised again; a \<open>Retry\<close> that is exhausted
      raises \<open>MaxRetryError\<close>, which the session hands on as \<open>RetryError\<close> after a
      response and as \<open>ConnectionError\<close> after a failure of the network.\<close>
  "increment r method oc =
     (if oc = ReadError \<and> \<not> is_method_retryable r method then Inl ConnectionError
      else
        (let new_retry = r\<lparr>total := total r - 1,
                            history := history r @
                              [case oc of Reply resp \<Rightarrow> Some (status_code resp) | _ \<Rightarrow> None]\<rparr>
         in if is_exhausted new_retry
            then Inl (case oc of Reply resp \<Rightarrow> RetryError | _ \<Rightarrow> ConnectionError)
            else Inr new_retry))"

definition get_backoff_time :: "Retry \<Rightarrow> nat" where
  \<comment> \<open>in seconds; the session does not follow redirects inside \<open>urlopen\<close>, so every entry
      of the history is an error\<close>
  "get_backoff_time r =
     (let consecutive_errors_len = length (history r)
      in if consecutive_errors_len \<le> 1 then 0
         else min DEFAULT_BACKOFF_MAX (backoff_factor r * 2 ^ (consecutive_errors_len - 1)))"

definition has_retry_after :: "Response \<Rightarrow> bool" where
  \<comment> \<open>\<open>bool(response.headers.get("Retry-After"))\<close>: the header is there and not empty\<close>
  "has_retry_after response =
     (case retry_after response of
        None \<Rightarrow> False
      | Some Empty \<Rightarrow> False
      | Some h \<Rightarrow> True)"

definition parse_retry_after :: "Retry \<Rightarrow> retry_after_header \<Rightarrow> exn + nat" where
  \<comment> \<open>\<open>Retry.parse_retry_after\<close>, in seconds: a date in the past is 0 seconds, the result
      is at most \<open>retry_after_max\<close>, and a text that is neither digits nor a date raises
      \<open>InvalidHeader\<close>\<close>
  "parse_retry_after r h =
     (case h of
        Seconds n \<Rightarrow>
          Inr (case retry_after_max r of None \<Rightarrow> n | Some m \<Rightarrow> min n m)
      | HttpDate d \<Rightarrow>
          Inr (case retry_after_max r of None \<Rightarrow> nat d | Some m \<Rightarrow> min (nat d) m)
      | Unparsable \<Rightarrow> Inl InvalidHeader
      | Empty \<Rightarrow> Inl InvalidHeader)"

definition get_retry_after :: "Retry \<Rightarrow> Response \<Rightarrow> exn + nat option" where
  "get_retry_after r response =
     (case retry_after response of
        None \<Rightarrow> Inr None
      | Some h \<Rightarrow>
          (case parse_retry_after r h of
             Inl e \<Rightarrow> Inl e
           | Inr seconds \<Rightarrow> Inr (Some seconds)))"

definition sleep_time :: "Retry \<Rightarrow> outcome \<Rightarrow> exn + nat" where
  \<comment> \<open>how long \<open>Retry.sleep\<close> sleeps: after a response, the seconds of its \<open>Retry-After\<close>
      when they are not 0, and the backoff otherwise; after a failure of the network, the
      backoff. A header that cannot be read raises.\<close>
  "sleep_time r oc =
     (case oc of
        Reply response \<Rightarrow>
          if respect_retry_after_header r
          then (case get_retry_after r response of
                  Inl e \<Rightarrow> Inl e
                | Inr (Some seconds) \<Rightarrow>
                    if seconds \<noteq> 0 then Inr seconds else Inr (get_backoff_time r)
                | Inr None \<Rightarrow> Inr (get_backoff_time r))
          else Inr (get_backoff_time r)
      | _ \<Rightarrow> Inr (get_backoff_time r))"

record trace =
  requests :: nat
  sleeps :: "nat list"

text \<open>
  \<open>urlopen\<close> with its retries. The server is a function from the number of requests
  already sent to what the next request meets; the trace counts the requests sent and
  lists the seconds slept before each retry, 0 where the retry follows at once.
\<close>

function urlopen :: "string \<Rightarrow> (nat \<Rightarrow> outcome) \<Rightarrow> Retry \<Rightarrow> trace \<Rightarrow> (exn + Response) \<times> trace" where
  "urlopen method server retries tr =
     (let oc = server (requests tr);
          tr1 = tr\<lparr>requests := requests tr + 1\<rparr>
      in case oc of
           Reply response \<Rightarrow>
             if is_retry retries method (status_code response) (has_retry_after response)
             then (case increment retries method oc of
                     Inl e \<Rightarrow> (if raise_on_status retries then Inl e else Inr response, tr1)
                   | Inr new_retries \<Rightarrow>
                       (case sleep_time new_retries oc of
                          Inl e \<Rightarrow> (Inl e, tr1)
                        | Inr seconds \<Rightarrow>
                            urlopen method server new_retries
                              (tr1\<lparr>sleeps := sleeps tr1 @ [seconds]\<rparr>)))
             else (Inr response, tr1)
         | _ \<Rightarrow>
             (case increment retries method oc of
                Inl e \<Rightarrow> (Inl e, tr1)
              | Inr new_retries \<Rightarrow>
                  (case sleep_time new_retries oc of
                     Inl e \<Rightarrow> (Inl e, tr1)
                   | Inr seconds \<Rightarrow>
                       urlopen method server new_retries
                         (tr1\<lparr>sleeps := sleeps tr1 @ [seconds]\<rparr>))))"
  by pat_completeness auto
termination
  by (relation "measure (\<lambda>(method, server, retries, tr). nat (total retries + 1))")
     (auto simp: increment_def is_exhausted_def Let_def split: if_splits)

declare urlopen.simps [simp del]

text \<open>
  The session. \<open>Session.get\<close> follows redirects: a response with a status of
  \<open>REDIRECT_STATI\<close> and a \<open>Location\<close> that is not empty is answered by a new request,
  which the adapter sends with the \<open>Retry\<close> object of the session afresh. After
  \<open>DEFAULT_REDIRECT_LIMIT\<close> redirects have been followed, a response that is a redirect
  again raises \<open>TooManyRedirects\<close>.

  \<open>Session.send\<close> reads the body of the response it returns. Before that it looks for
  the target of a redirect, to prepare the next request: there a target that cannot be
  read raises, and there the body of a redirect is read with its failure caught.
\<close>

definition REDIRECT_STATI :: "nat list" where
  "REDIRECT_STATI = [301, 302, 303, 307, 308]"

definition DEFAULT_REDIRECT_LIMIT :: nat where
  "DEFAULT_REDIRECT_LIMIT = 30"

definition is_redirect :: "Response \<Rightarrow> bool" where
  "is_redirect response =
     (location response \<noteq> None \<and> status_code response \<in> set REDIRECT_STATI)"

definition get_redirect_target :: "Response \<Rightarrow> location_header option" where
  "get_redirect_target response = (if is_redirect response then location response else None)"

definition adapter_send :: "Retry \<Rightarrow> (nat \<Rightarrow> outcome) \<Rightarrow> trace \<Rightarrow> (exn + Response) \<times> trace" where
  \<comment> \<open>\<open>HTTPAdapter.send\<close> of a \<open>GET\<close>: \<open>urlopen\<close> with \<open>retries=self.max_retries\<close>\<close>
  "adapter_send max_retries server tr = urlopen ''GET'' server max_retries tr"

definition read_content :: "Response \<Rightarrow> exn + Response" where
  \<comment> \<open>\<open>r.content\<close> at the end of \<open>Session.send\<close>. The body of a redirect with a target
      has been read before, inside \<open>try\<close>, by \<open>resolve_redirects\<close>.\<close>
  "read_content r =
     (case get_redirect_target r of
        None \<Rightarrow> if content_ok r then Inr r else Inl ChunkedEncodingError
      | Some NoTarget \<Rightarrow> if content_ok r then Inr r else Inl ChunkedEncodingError
      | Some target \<Rightarrow> Inr r)"

definition send_no_redirects :: "Retry \<Rightarrow> (nat \<Rightarrow> outcome) \<Rightarrow> trace \<Rightarrow> (exn + Response) \<times> trace" where
  \<comment> \<open>\<open>Session.send(req, stream=False, allow_redirects=False)\<close>, which sends a request
      that follows a redirect: the next request is prepared for \<open>r._next\<close>, then the
      body is read\<close>
  "send_no_redirects max_retries server tr =
     (case adapter_send max_retries server tr of
        (Inl e, tr') \<Rightarrow> (Inl e, tr')
      | (Inr r, tr') \<Rightarrow>
          if get_redirect_target r = Some Malformed then (Inl ValueError, tr')
          else (read_content r, tr'))"

function resolve_redirects ::
  "Retry \<Rightarrow> (nat \<Rightarrow> outcome) \<Rightarrow> nat \<Rightarrow> Response \<Rightarrow> trace \<Rightarrow> (exn + Response) \<times> trace" where
  \<comment> \<open>the loop \<open>while url\<close> of \<open>Session.resolve_redirects\<close>, to its last response;
      \<open>followed\<close> is \<open>len(resp.history)\<close>, the number of redirects followed so far\<close>
  "resolve_redirects max_retries server followed resp tr =
     (case get_redirect_target resp of
        None \<Rightarrow> (Inr resp, tr)
      | Some NoTarget \<Rightarrow> (Inr resp, tr)
      | Some target \<Rightarrow>
          if followed \<ge> DEFAULT_REDIRECT_LIMIT then (Inl TooManyRedirects, tr)
          else if target = Malformed then (Inl ValueError, tr)
          else if target = Unrequestable then (Inl InvalidURL, tr)
          else (case send_no_redirects max_retries server tr of
                  (Inl e, tr') \<Rightarrow> (Inl e, tr')
                | (Inr resp', tr') \<Rightarrow>
                    resolve_redirects max_retries server (Suc followed) resp' tr'))"
  by pat_completeness auto
termination
  by (relation "measure (\<lambda>(max_retries, server, followed, resp, tr).
                           DEFAULT_REDIRECT_LIMIT - followed)")
     auto

declare resolve_redirects.simps [simp del]

definition session_get :: "Retry \<Rightarrow> (nat \<Rightarrow> outcome) \<Rightarrow> (exn + Response) \<times> trace" where
  \<comment> \<open>\<open>session.get(AUTHOR_URL, timeout=REQUEST_TIMEOUT)\<close> through the mounted adapter:
      \<open>Session.send\<close> with \<open>allow_redirects=True\<close> and \<open>stream=False\<close>\<close>
  "session_get max_retries server =
     (case adapter_send max_retries server \<lparr>requests = 0, sleeps = []\<rparr> of
        (Inl e, tr) \<Rightarrow> (Inl e, tr)
      | (Inr r, tr) \<Rightarrow>
          (case resolve_redirects max_retries server 0 r tr of
             (Inl e, tr') \<Rightarrow> (Inl e, tr')
           | (Inr response, tr') \<Rightarrow> (read_content response, tr')))"

definition raise_for_status :: "Response \<Rightarrow> exn + unit" where
  "raise_for_status response =
     (if 400 \<le> status_code response \<and> status_code response < 600 then Inl HTTPError
      else Inr ())"

text \<open>
  Two notions for stating what a run of \<open>urlopen\<close> does: whether the strategy of the
  program asks for another attempt after an outcome, and the facts that hold of a run.
\<close>

definition retried :: "outcome \<Rightarrow> bool" where
  \<comment> \<open>what a \<open>GET\<close> must meet for the strategy of the program to ask for another attempt\<close>
  "retried oc =
     (case oc of
        Reply response \<Rightarrow>
          is_retry retry_strategy ''GET'' (status_code response) (has_retry_after response)
      | _ \<Rightarrow> True)"

definition retry_after_seconds :: "nat option \<Rightarrow> outcome \<Rightarrow> nat option" where
  \<comment> \<open>the seconds the server asks the client to wait, when it does, and at most the limit
      when there is one\<close>
  "retry_after_seconds limit oc =
     (case oc of
        Reply response \<Rightarrow>
          (case retry_after response of
             Some (Seconds n) \<Rightarrow> Some (case limit of None \<Rightarrow> n | Some m \<Rightarrow> min n m)
           | Some (HttpDate d) \<Rightarrow> Some (case limit of None \<Rightarrow> nat d | Some m \<Rightarrow> min (nat d) m)
           | _ \<Rightarrow> None)
      | _ \<Rightarrow> None)"

definition unreadable_retry_after :: "outcome \<Rightarrow> bool" where
  \<comment> \<open>a response whose \<open>Retry-After\<close> header is there and cannot be read as seconds\<close>
  "unreadable_retry_after oc =
     (case oc of
        Reply response \<Rightarrow>
          retry_after response = Some Unparsable \<or> retry_after response = Some Empty
      | _ \<Rightarrow> False)"

definition run_from ::
  "(nat \<Rightarrow> outcome) \<Rightarrow> nat option \<Rightarrow> nat \<Rightarrow> nat \<Rightarrow> nat \<Rightarrow> trace \<Rightarrow> (exn + Response) \<times> trace \<Rightarrow> bool" where
  \<comment> \<open>what holds of a run of \<open>urlopen\<close> that continues with the trace \<open>tr\<close> and has \<open>n\<close>
      retries left, where the call of the adapter began after \<open>b\<close> requests and \<open>l\<close>
      sleeps\<close>
  "run_from server limit n b l tr run =
     (case run of (res, tr') \<Rightarrow>
        requests tr < requests tr' \<and> requests tr' \<le> requests tr + n + 1
        \<and> length (sleeps tr') + b + 1 = l + requests tr'
        \<and> take (length (sleeps tr)) (sleeps tr') = sleeps tr
        \<and> (\<forall>k. requests tr \<le> k \<and> Suc k < requests tr' \<longrightarrow>
              retried (server k) \<and> \<not> unreadable_retry_after (server k)
              \<and> sleeps tr' ! (l + (k - b)) =
                  (case retry_after_seconds limit (server k) of
                     Some (Suc s) \<Rightarrow> Suc s
                   | _ \<Rightarrow> if k - b = 0 then 0 else RETRY_BACKOFF_FACTOR * 2 ^ (k - b)))
        \<and> (\<forall>e. res = Inl e \<longrightarrow>
              retried (server (requests tr' - 1))
              \<and> ((e = RetryError \<or> e = ConnectionError)
                    \<and> requests tr' = requests tr + n + 1
                    \<and> \<not> (\<exists>response. server (requests tr' - 1) = Reply response
                                      \<and> status_code response \<notin> set (status_forcelist retry_strategy))
                  \<or> e = InvalidHeader \<and> requests tr' < requests tr + n + 1
                    \<and> unreadable_retry_after (server (requests tr' - 1))))
        \<and> (\<forall>response. res = Inr response \<longrightarrow>
              server (requests tr' - 1) = Reply response
              \<and> status_code response \<notin> set (status_forcelist retry_strategy)
              \<and> (requests tr' < requests tr + n + 1 \<longrightarrow> \<not> retried (Reply response))))"

section \<open>Page scraper\<close>

definition post_cards :: "node \<Rightarrow> node list" where
  \<comment> \<open>\<open>soup.find_all("article") or soup.find_all("div", class_=...)\<close>: an empty list is
      false\<close>
  "post_cards soup =
     (let articles = find_all soup ''article'' []
      in if articles \<noteq> [] then articles
         else find_all soup ''div'' [ClassSearch [''post'', ''article'', ''card'']])"

fun collect_posts :: "bool \<Rightarrow> node list \<Rightarrow> BlogPost list \<Rightarrow> BlogPost list" where
  \<comment> \<open>the loop over \<open>post_cards\<close>; the last argument is \<open>posts\<close> so far\<close>
  "collect_posts pad [] posts = posts"
| "collect_posts pad (c # cs) posts =
     (case extract_post_data pad c of
        Some post \<Rightarrow> collect_posts pad cs (posts @ [post])
      | None \<Rightarrow> collect_posts pad cs posts)"

definition scrape_crl_author_page :: "bool \<Rightarrow> Retry \<Rightarrow> (nat \<Rightarrow> outcome) \<Rightarrow> exn + BlogPost list" where
  "scrape_crl_author_page pad session server =
     (case fst (session_get session server) of
        Inl e \<Rightarrow> Inl e
      | Inr response \<Rightarrow>
          (case raise_for_status response of
             Inl e \<Rightarrow> Inl e
           | Inr u \<Rightarrow> Inr (collect_posts pad (post_cards (content response)) [])))"

section \<open>Output and entry point\<close>

record ts_file =
  last_updated :: string
  crlPosts :: "(string \<times> json) list list"

definition generate_typescript_file :: "string \<Rightarrow> BlogPost list \<Rightarrow> ts_file" where
  \<comment> \<open>the generated text is fixed by the time stamp and the dictionaries of the posts;
      the model keeps these two and leaves the rendering as text aside\<close>
  "generate_typescript_file timestamp posts =
     \<lparr>last_updated = timestamp, crlPosts = map to_dict posts\<rparr>"

definition OUTPUT_PATH :: string where
  "OUTPUT_PATH = ''src/data/crl-posts.ts''"

definition write_output_file ::
  "exn option \<Rightarrow> ts_file \<Rightarrow> string \<Rightarrow> (string \<rightharpoonup> ts_file) \<Rightarrow> exn + (string \<rightharpoonup> ts_file)" where
  \<comment> \<open>the first argument is the exception the file system raises on this write, if any;
      it is logged and raised again\<close>
  "write_output_file disk file_content file_path files =
     (case disk of
        Some e \<Rightarrow> Inl e
      | None \<Rightarrow> Inr (files(file_path \<mapsto> file_content)))"

definition main ::
  "bool \<Rightarrow> (nat \<Rightarrow> outcome) \<Rightarrow> string \<Rightarrow> exn option \<Rightarrow> (string \<rightharpoonup> ts_file)
     \<Rightarrow> int \<times> (string \<rightharpoonup> ts_file)" where
  \<comment> \<open>the exit code and the files afterwards; \<open>except Exception\<close> returns 1\<close>
  "main pad server now disk files =
     (let session = retry_strategy
      in case scrape_crl_author_page pad session server of
           Inl e \<Rightarrow> (1, files)
         | Inr posts \<Rightarrow>
             if posts = [] then (1, files)
             else (case write_output_file disk (generate_typescript_file now posts)
                          OUTPUT_PATH files of
                     Inl e \<Rightarrow> (1, files)
                   | Inr files' \<Rightarrow> (0, files')))"

section \<open>Properties of the date normalizer\<close>

lemma py_int_exn: "py_int s = Inl e \<Longrightarrow> e = ValueError"
  by (simp add: py_int_def Let_def split: if_splits)

lemma list_index_exn: "list_index xs x = Inl e \<Longrightarrow> e = ValueError"
  by (induction xs) (auto split: if_splits sum.splits)

lemma convert_exn: "convert found ymd = Inl e \<Longrightarrow> e = ValueError"
  by (induction found ymd rule: convert.induct)
     (auto split: directive.splits sum.splits dest: py_int_exn list_index_exn)

lemma datetime_date_exn: "datetime_date y m d = Inl e \<Longrightarrow> e = ValueError"
  by (simp add: datetime_date_def split: if_splits)

lemma strptime_exn: "strptime s f = Inl e \<Longrightarrow> e = ValueError"
  unfolding strptime_def
  by (auto split: option.splits list.splits if_splits sum.splits prod.splits
           dest: convert_exn datetime_date_exn)

lemma try_formats_all_fail:
  "\<forall>fmt \<in> set fmts. isl (strptime s fmt) \<Longrightarrow> try_formats pad s fmts = Inr None"
proof (induction fmts)
  case Nil
  show ?case by simp
next
  case (Cons f fs)
  from Cons.prems have "isl (strptime s f)" by simp
  then obtain e where e: "strptime s f = Inl e" by (cases "strptime s f") auto
  then have "e = ValueError" by (rule strptime_exn)
  with e Cons show ?case by simp
qed

lemma try_formats_returns: "\<not> isl (try_formats pad s fmts)"
proof (induction fmts)
  case Nil
  show ?case by simp
next
  case (Cons f fs)
  show ?case
  proof (cases "strptime s f")
    case (Inl e)
    then have "e = ValueError" by (rule strptime_exn)
    with Inl Cons show ?thesis by simp
  next
    case (Inr dt)
    then show ?thesis by simp
  qed
qed

lemma try_formats_first:
  assumes "i < length fmts"
    and "strptime s (fmts ! i) = Inr dt"
    and "\<forall>j<i. isl (strptime s (fmts ! j))"
  shows "try_formats pad s fmts = Inr (Some (strftime pad dt))"
  using assms
proof (induction fmts arbitrary: i)
  case Nil
  then show ?case by simp
next
  case (Cons f fs)
  show ?case
  proof (cases i)
    case 0
    with Cons.prems show ?thesis by simp
  next
    case (Suc k)
    with Cons.prems have "isl (strptime s f)" by auto
    then obtain e where e: "strptime s f = Inl e" by (cases "strptime s f") auto
    then have ev: "e = ValueError" by (rule strptime_exn)
    from Suc Cons.prems have "k < length fs" "strptime s (fs ! k) = Inr dt" by auto
    moreover from Suc Cons.prems have "\<forall>j<k. isl (strptime s (fs ! j))" by auto
    ultimately have "try_formats pad s fs = Inr (Some (strftime pad dt))"
      by (rule Cons.IH)
    with e ev show ?thesis by simp
  qed
qed

lemma digit_char_0: "digit_char 0 = CHR ''0''"
  by (simp add: digit_char_def)

lemma replicate_zeros:
  "replicate 3 CHR ''0'' = ''000''" "replicate 2 CHR ''0'' = ''00''"
  by code_simp+

lemma decimal_small: "n < 10 \<Longrightarrow> decimal n = [digit_char n]"
  by (subst decimal.simps) simp

lemma decimal_big: "10 \<le> n \<Longrightarrow> decimal n = decimal (n div 10) @ [digit_char (n mod 10)]"
  by (subst decimal.simps) simp

lemma decimal_2: "10 \<le> n \<Longrightarrow> n < 100 \<Longrightarrow> decimal n = [digit_char (n div 10), digit_char (n mod 10)]"
  by (simp add: decimal_big decimal_small)

lemma decimal_3:
  assumes "100 \<le> n" "n < 1000"
  shows "decimal n = [digit_char (n div 100), digit_char (n div 10 mod 10), digit_char (n mod 10)]"
proof -
  have "10 \<le> n div 10" "n div 10 < 100" using assms by auto
  then have "decimal (n div 10) = [digit_char (n div 10 div 10), digit_char (n div 10 mod 10)]"
    by (rule decimal_2)
  moreover have "n div 10 div 10 = n div 100" by (simp add: div_mult2_eq[symmetric])
  ultimately show ?thesis using assms by (simp add: decimal_big)
qed

lemma decimal_4:
  assumes "1000 \<le> n" "n < 10000"
  shows "decimal n = [digit_char (n div 1000), digit_char (n div 100 mod 10),
                      digit_char (n div 10 mod 10), digit_char (n mod 10)]"
proof -
  have "100 \<le> n div 10" "n div 10 < 1000" using assms by auto
  then have "decimal (n div 10) = [digit_char (n div 10 div 100), digit_char (n div 10 div 10 mod 10),
                                   digit_char (n div 10 mod 10)]"
    by (rule decimal_3)
  moreover have "n div 10 div 100 = n div 1000" "n div 10 div 10 = n div 100"
    by (simp_all add: div_mult2_eq[symmetric])
  ultimately show ?thesis using assms by (simp add: decimal_big)
qed

lemma two_digits:
  assumes "n < 100"
  shows "zfill 2 (decimal n) = [digit_char (n div 10 mod 10), digit_char (n mod 10)]"
proof (cases "n < 10")
  case True
  then show ?thesis by (simp add: decimal_small zfill_def digit_char_0)
next
  case False
  with assms have "decimal n = [digit_char (n div 10), digit_char (n mod 10)]"
    by (simp add: decimal_2)
  moreover from assms have "n div 10 mod 10 = n div 10" by simp
  ultimately show ?thesis by (simp add: zfill_def)
qed

lemma four_digits_year:
  assumes "1000 \<le> n" "n < 10000"
  shows "decimal n = [digit_char (n div 1000 mod 10), digit_char (n div 100 mod 10),
                      digit_char (n div 10 mod 10), digit_char (n mod 10)]"
proof -
  from assms have "n div 1000 mod 10 = n div 1000" by simp
  with assms show ?thesis by (simp add: decimal_4)
qed

lemma four_digits_pad:
  assumes "n < 10000"
  shows "zfill 4 (decimal n) = [digit_char (n div 1000 mod 10), digit_char (n div 100 mod 10),
                                digit_char (n div 10 mod 10), digit_char (n mod 10)]"
proof -
  consider "n < 10" | "10 \<le> n" "n < 100" | "100 \<le> n" "n < 1000" | "1000 \<le> n" by linarith
  then show ?thesis
  proof cases
    case 1
    then show ?thesis by (simp add: decimal_small zfill_def digit_char_0 replicate_zeros)
  next
    case 2
    then have "n div 10 mod 10 = n div 10" by simp
    with 2 show ?thesis by (simp add: decimal_2 zfill_def digit_char_0 replicate_zeros)
  next
    case 3
    then have "n div 100 mod 10 = n div 100" by simp
    with 3 show ?thesis by (simp add: decimal_3 zfill_def digit_char_0)
  next
    case 4
    with assms have "decimal n = [digit_char (n div 1000 mod 10), digit_char (n div 100 mod 10),
                      digit_char (n div 10 mod 10), digit_char (n mod 10)]"
      by (simp add: four_digits_year)
    then show ?thesis by (simp add: zfill_def)
  qed
qed

lemma strftime_shape:
  assumes "y < 10000" "m < 100" "d < 100" "pad \<or> 1000 \<le> y"
  shows "strftime pad (y, m, d) = YYYY_MM_DD (y, m, d)"
proof (cases pad)
  case True
  with assms show ?thesis
    by (simp add: strftime_def YYYY_MM_DD_def four_digits_pad two_digits)
next
  case False
  with assms have "1000 \<le> y" by simp
  with assms False show ?thesis
    by (simp add: strftime_def YYYY_MM_DD_def four_digits_year two_digits)
qed

lemma days_in_month_le: "days_in_month y m \<le> 31"
  by (simp add: days_in_month_def)

lemma datetime_date_range:
  assumes "datetime_date y m d = Inr dt"
  shows "dt = (y, m, d) \<and> 1 \<le> y \<and> y \<le> 9999 \<and> 1 \<le> m \<and> m \<le> 12 \<and> 1 \<le> d \<and> d \<le> 31"
proof -
  from assms have *: "dt = (y, m, d)" "1 \<le> y" "y \<le> 9999" "1 \<le> m" "m \<le> 12" "1 \<le> d" "d \<le> days_in_month y m"
    by (simp_all add: datetime_date_def split: if_splits)
  with days_in_month_le[of y m] show ?thesis by simp
qed

lemma strptime_range:
  assumes "strptime s f = Inr (y, m, d)"
  shows "1 \<le> y \<and> y \<le> 9999 \<and> 1 \<le> m \<and> m \<le> 12 \<and> 1 \<le> d \<and> d \<le> 31"
  using assms unfolding strptime_def
  by (auto split: option.splits list.splits if_splits sum.splits prod.splits
           dest!: datetime_date_range)

lemma pattern_DATE_FORMATS:
  "pattern ''%B %d, %Y'' =
     Some [Group Dir_B, Whitespace, Group Dir_d, Literal CHR '','', Whitespace, Group Dir_Y]"
  "pattern ''%b %d, %Y'' =
     Some [Group Dir_b, Whitespace, Group Dir_d, Literal CHR '','', Whitespace, Group Dir_Y]"
  "pattern ''%Y-%m-%d'' =
     Some [Group Dir_Y, Literal CHR ''-'', Group Dir_m, Literal CHR ''-'', Group Dir_d]"
  "pattern ''%m/%d/%Y'' =
     Some [Group Dir_m, Literal CHR ''/'', Group Dir_d, Literal CHR ''/'', Group Dir_Y]"
  by (simp_all add: directive_of_def isspace_def)

lemma try_formats_skip:
  assumes "isl (strptime s f)"
  shows "try_formats pad s (f # fs) = try_formats pad s fs"
proof -
  from assms obtain e where e: "strptime s f = Inl e" by (cases "strptime s f") auto
  then have "e = ValueError" by (rule strptime_exn)
  with e show ?thesis by simp
qed

lemma try_formats_hit:
  "strptime s f = Inr dt \<Longrightarrow> try_formats pad s (f # fs) = Inr (Some (strftime pad dt))"
  by simp

lemma strftime_2024:
  "strftime pad (2024, 1, 15) = ''2024-01-15''"
  "strftime pad (2024, 1, 2) = ''2024-01-02''"
  "strftime pad (2024, Suc 0, 15) = ''2024-01-15''"
  "strftime pad (2024, Suc 0, 2) = ''2024-01-02''"
  by (simp_all add: strftime_shape YYYY_MM_DD_def digit_char_def)

lemma parse_date_example_full: "parse_date pad ''January 15, 2024'' = Inr (Some ''2024-01-15'')"
proof -
  have s: "strip ''January 15, 2024'' = ''January 15, 2024''" by code_simp
  have "strptime ''January 15, 2024'' ''%B %d, %Y'' = Inr (2024, 1, 15)" by code_simp
  then show ?thesis
    by (simp add: parse_date_def s DATE_FORMATS_def try_formats_hit strftime_2024
             del: try_formats.simps)
qed

lemma parse_date_example_abbr: "parse_date pad ''Jan 15, 2024'' = Inr (Some ''2024-01-15'')"
proof -
  have s: "strip ''Jan 15, 2024'' = ''Jan 15, 2024''" by code_simp
  have f0: "isl (strptime ''Jan 15, 2024'' ''%B %d, %Y'')" by code_simp
  have "strptime ''Jan 15, 2024'' ''%b %d, %Y'' = Inr (2024, 1, 15)" by code_simp
  then show ?thesis
    by (simp add: parse_date_def s DATE_FORMATS_def try_formats_skip [OF f0] try_formats_hit
                  strftime_2024 del: try_formats.simps)
qed

lemma parse_date_example_iso: "parse_date pad ''2024-01-15'' = Inr (Some ''2024-01-15'')"
proof -
  have s: "strip ''2024-01-15'' = ''2024-01-15''" by code_simp
  have f0: "isl (strptime ''2024-01-15'' ''%B %d, %Y'')" by code_simp
  have f1: "isl (strptime ''2024-01-15'' ''%b %d, %Y'')" by code_simp
  have "strptime ''2024-01-15'' ''%Y-%m-%d'' = Inr (2024, 1, 15)" by code_simp
  then show ?thesis
    by (simp add: parse_date_def s DATE_FORMATS_def try_formats_skip [OF f0]
                  try_formats_skip [OF f1] try_formats_hit strftime_2024
             del: try_formats.simps)
qed

lemma parse_date_example_slash: "parse_date pad ''01/02/2024'' = Inr (Some ''2024-01-02'')"
proof -
  have s: "strip ''01/02/2024'' = ''01/02/2024''" by code_simp
  have f0: "isl (strptime ''01/02/2024'' ''%B %d, %Y'')" by code_simp
  have f1: "isl (strptime ''01/02/2024'' ''%b %d, %Y'')" by code_simp
  have f2: "isl (strptime ''01/02/2024'' ''%Y-%m-%d'')" by code_simp
  have "strptime ''01/02/2024'' ''%m/%d/%Y'' = Inr (2024, 1, 2)" by code_simp
  then show ?thesis
    by (simp add: parse_date_def s DATE_FORMATS_def try_formats_skip [OF f0]
                  try_formats_skip [OF f1] try_formats_skip [OF f2] try_formats_hit
                  strftime_2024 del: try_formats.simps)
qed

lemmas parse_date_examples =
  parse_date_example_full parse_date_example_abbr parse_date_example_iso
  parse_date_example_slash

text \<open>
  When the trimmed text is parsed by one of the four formats of \<open>DATE_FORMATS\<close> (full
  month name, abbreviated month name, ISO, month/day/year, tried in this order),
  \<open>parse_date\<close> returns the date of the first format that parses it, written by
  \<open>strftime("%Y-%m-%d")\<close>; this is the text \<open>YYYY-MM-DD\<close> for every year from 1000 on,
  and for every year where the platform fills the year with zeros. In particular
  "January 15, 2024", "Jan 15, 2024" and "2024-01-15" give "2024-01-15", and
  "01/02/2024" gives "2024-01-02".
\<close>

lemma parse_date_first_match:
  "(i < length DATE_FORMATS \<and> strptime (strip s) (DATE_FORMATS ! i) = Inr dt
      \<and> (\<forall>j<i. isl (strptime (strip s) (DATE_FORMATS ! j)))
     \<longrightarrow> parse_date pad s = Inr (Some (strftime pad dt))
         \<and> (pad \<or> 1000 \<le> fst dt \<longrightarrow> strftime pad dt = YYYY_MM_DD dt))
   \<and> parse_date pad ''January 15, 2024'' = Inr (Some ''2024-01-15'')
   \<and> parse_date pad ''Jan 15, 2024'' = Inr (Some ''2024-01-15'')
   \<and> parse_date pad ''2024-01-15'' = Inr (Some ''2024-01-15'')
   \<and> parse_date pad ''01/02/2024'' = Inr (Some ''2024-01-02'')"
proof -
  have "parse_date pad s = Inr (Some (strftime pad dt))
        \<and> (pad \<or> 1000 \<le> fst dt \<longrightarrow> strftime pad dt = YYYY_MM_DD dt)"
    if i: "i < length DATE_FORMATS"
      and ok: "strptime (strip s) (DATE_FORMATS ! i) = Inr dt"
      and earlier: "\<forall>j<i. isl (strptime (strip s) (DATE_FORMATS ! j))"
  proof -
    obtain y m d where dt: "dt = (y, m, d)" by (cases dt) auto
    from ok dt have "1 \<le> y \<and> y \<le> 9999 \<and> 1 \<le> m \<and> m \<le> 12 \<and> 1 \<le> d \<and> d \<le> 31"
      using strptime_range by blast
    then have "pad \<or> 1000 \<le> y \<Longrightarrow> strftime pad (y, m, d) = YYYY_MM_DD (y, m, d)"
      by (intro strftime_shape) auto
    moreover have "parse_date pad s = Inr (Some (strftime pad dt))"
      unfolding parse_date_def using i ok earlier by (rule try_formats_first)
    ultimately show ?thesis using dt by simp
  qed
  then show ?thesis by (simp add: parse_date_examples)
qed

lemma parse_date_first_match_example:
  "isl (strptime (strip '' Mar 5, 2024  '') (DATE_FORMATS ! 0))
   \<and> strptime (strip '' Mar 5, 2024  '') (DATE_FORMATS ! 1) = Inr (2024, 3, 5)
   \<and> parse_date False '' Mar 5, 2024  '' = Inr (Some ''2024-03-05'')
   \<and> YYYY_MM_DD (2024, 3, 5) = ''2024-03-05''"
proof -
  have len: "1 < length DATE_FORMATS" by (simp add: DATE_FORMATS_def)
  have fails: "isl (strptime (strip '' Mar 5, 2024  '') (DATE_FORMATS ! 0))" by code_simp
  have ok: "strptime (strip '' Mar 5, 2024  '') (DATE_FORMATS ! 1) = Inr (2024, 3, 5)" by code_simp
  have earlier: "\<forall>j<1. isl (strptime (strip '' Mar 5, 2024  '') (DATE_FORMATS ! j))"
    using fails by simp
  have shape: "YYYY_MM_DD (2024, 3, 5) = ''2024-03-05''"
    by (simp add: YYYY_MM_DD_def digit_char_def)
  from parse_date_first_match [of 1 "'' Mar 5, 2024  ''" "(2024, 3, 5)" False] len ok earlier
  have "parse_date False '' Mar 5, 2024  '' = Inr (Some (strftime False (2024, 3, 5)))"
    and "strftime False (2024, 3, 5) = YYYY_MM_DD (2024, 3, 5)"
    by simp_all
  with fails ok shape show ?thesis by simp
qed

lemma strftime_999:
  "strftime False (999, 1, 1) = ''999-01-01''"
  "strftime True (999, 1, 1) = ''0999-01-01''"
proof -
  have d: "decimal 999 = ''999''" by (simp add: decimal_3 digit_char_def)
  have z: "zfill 4 ''999'' = ''0999''" by (simp add: zfill_def)
  have m: "zfill 2 (decimal (Suc 0)) = ''01''" by (simp add: two_digits digit_char_def)
  show "strftime False (999, 1, 1) = ''999-01-01''" by (simp add: strftime_def d m)
  show "strftime True (999, 1, 1) = ''0999-01-01''" by (simp add: strftime_def d z m)
qed

text \<open>
  C2. The text "0999-01-01" is in the ISO format, the third of \<open>DATE_FORMATS\<close>, and is
  the date of year 999. Its form \<open>YYYY-MM-DD\<close> is "0999-01-01". Where the platform
  writes \<open>%Y\<close> without filling it with zeros, \<open>parse_date\<close> returns "999-01-01", a year of
  three digits, although its docstring promises a date in \<open>YYYY-MM-DD\<close> format; where
  the platform fills the year, it returns "0999-01-01".
\<close>

theorem parse_date_year_below_1000:
  "isl (strptime ''0999-01-01'' (DATE_FORMATS ! 0))
   \<and> isl (strptime ''0999-01-01'' (DATE_FORMATS ! 1))
   \<and> strptime ''0999-01-01'' (DATE_FORMATS ! 2) = Inr (999, 1, 1)
   \<and> YYYY_MM_DD (999, 1, 1) = ''0999-01-01''
   \<and> parse_date False ''0999-01-01'' = Inr (Some ''999-01-01'')
   \<and> parse_date True ''0999-01-01'' = Inr (Some ''0999-01-01'')"
proof -
  have s: "strip ''0999-01-01'' = ''0999-01-01''" by code_simp
  have f0: "isl (strptime ''0999-01-01'' ''%B %d, %Y'')" by code_simp
  have f1: "isl (strptime ''0999-01-01'' ''%b %d, %Y'')" by code_simp
  have ok: "strptime ''0999-01-01'' ''%Y-%m-%d'' = Inr (999, 1, 1)" by code_simp
  have shape: "YYYY_MM_DD (999, 1, 1) = ''0999-01-01''"
    by (simp add: YYYY_MM_DD_def digit_char_def)
  have p: "parse_date pad ''0999-01-01'' = Inr (Some (strftime pad (999, 1, 1)))" for pad
    unfolding parse_date_def s DATE_FORMATS_def
    by (simp only: try_formats_skip [OF f0] try_formats_skip [OF f1] try_formats_hit [OF ok])
  have "parse_date False ''0999-01-01'' = Inr (Some ''999-01-01'')"
    and "parse_date True ''0999-01-01'' = Inr (Some ''0999-01-01'')"
    by (simp_all only: p strftime_999)
  with f0 f1 ok shape show ?thesis by (simp add: DATE_FORMATS_def)
qed

text \<open>
  C8. When none of the formats parses the trimmed text, \<open>parse_date\<close> returns \<open>None\<close>,
  as it does for "yesterday"; and whatever the text, \<open>parse_date\<close> returns and does not
  raise.
\<close>

theorem parse_date_unparseable:
  "((\<forall>fmt \<in> set DATE_FORMATS. isl (strptime (strip s) fmt)) \<longrightarrow> parse_date pad s = Inr None)
   \<and> \<not> isl (parse_date pad s)
   \<and> parse_date pad ''yesterday'' = Inr None"
proof -
  have "\<forall>fmt \<in> set DATE_FORMATS. isl (strptime (strip ''yesterday'') fmt)"
    by code_simp
  then have "parse_date pad ''yesterday'' = Inr None"
    by (simp add: parse_date_def try_formats_all_fail)
  then show ?thesis
    by (simp add: parse_date_def try_formats_all_fail try_formats_returns)
qed

theorem parse_date_unparseable_witness:
  "list_all (\<lambda>fmt. isl (strptime (strip ''next Tuesday'') fmt)) DATE_FORMATS
   \<and> parse_date True ''next Tuesday'' = Inr None"
proof -
  have h: "list_all (\<lambda>fmt. isl (strptime (strip ''next Tuesday'') fmt)) DATE_FORMATS"
    by code_simp
  then have "\<forall>fmt \<in> set DATE_FORMATS. isl (strptime (strip ''next Tuesday'') fmt)"
    by (simp add: list_all_iff)
  with parse_date_unparseable [of "''next Tuesday''" True] h show ?thesis by simp
qed

section \<open>Properties of the tag classifier\<close>


lemma add_tag_finite: "finite S \<Longrightarrow> finite (add_tag txt item S)"
  by (simp add: add_tag_def)

lemma add_tag_mono: "x \<in> S \<Longrightarrow> x \<in> add_tag txt item S"
  by (simp add: add_tag_def)

lemma fold_add_tag_finite: "finite S \<Longrightarrow> finite (fold (add_tag txt) items S)"
  by (induction items arbitrary: S) (simp_all add: add_tag_finite)

lemma fold_add_tag_mono: "x \<in> S \<Longrightarrow> x \<in> fold (add_tag txt) items S"
  by (induction items arbitrary: S) (simp_all add: add_tag_mono)

lemma tag_set_finite: "finite (tag_set ttl exc)"
  by (simp add: tag_set_def DEFAULT_TAGS_def fold_add_tag_finite)

lemma tag_set_default: "''databases'' \<in> tag_set ttl exc"
  by (simp add: tag_set_def DEFAULT_TAGS_def fold_add_tag_mono)

lemma tag_set_empty: "tag_set [] [] = {''databases''}"
  by (simp add: tag_set_def DEFAULT_TAGS_def tag_keywords_def add_tag_def str_in_def
      lower_def lower_char_def sublist_code)

text \<open>
  C3. Whatever the title and the excerpt, the list of tags contains the default label
  \<open>databases\<close>, has no duplicates and is in ascending order; being a function of the two
  texts it is the same for the same texts. With an empty title and an empty excerpt it
  is the default label alone.
\<close>

theorem extract_tags_default_sorted:
  "''databases'' \<in> set (extract_tags post_card ttl exc)
   \<and> distinct (extract_tags post_card ttl exc)
   \<and> sorted (extract_tags post_card ttl exc)
   \<and> extract_tags post_card [] [] = [''databases'']"
proof -
  have fin: "finite (tag_set ttl exc)" by (rule tag_set_finite)
  then have "set (extract_tags post_card ttl exc) = tag_set ttl exc"
    by (simp add: extract_tags_def)
  then have "''databases'' \<in> set (extract_tags post_card ttl exc)"
    by (simp add: tag_set_default)
  moreover have "distinct (extract_tags post_card ttl exc)"
    and "sorted (extract_tags post_card ttl exc)"
    by (simp_all add: extract_tags_def)
  moreover have "extract_tags post_card [] [] = [''databases'']"
    by (simp add: extract_tags_def tag_set_empty)
  ultimately show ?thesis by simp
qed

theorem extract_tags_default_sorted_witness:
  "extract_tags (Tag ''article'' [] []) ''Multi-region replication deep dive'' []
     = [''databases'', ''distributed-systems'']
   \<and> ''databases'' \<in> set [''databases'', ''distributed-systems'']
   \<and> sorted [''databases'', ''distributed-systems'']"
proof -
  have e: "extract_tags (Tag ''article'' [] []) ''Multi-region replication deep dive'' []
             = [''databases'', ''distributed-systems'']"
    by code_simp
  from extract_tags_default_sorted
         [of "Tag ''article'' [] []" "''Multi-region replication deep dive''" "[]"]
  show ?thesis unfolding e by simp
qed

section \<open>Properties of the record extractor\<close>

lemma find_matches: "find t nm fs = Some x \<Longrightarrow> matches nm fs x"
proof -
  assume "find t nm fs = Some x"
  then obtain xs where "filter (matches nm fs) (descendants t) = x # xs"
    by (auto simp: find_def find_all_def split: list.splits)
  then show ?thesis by (metis filter_eq_ConsD)
qed

lemma matches_has_attr: "matches nm [HasAttr k] x \<Longrightarrow> \<exists>v. get_attr x k = Some v"
  by (cases x) auto

lemma find_has_attr: "find t nm [HasAttr k] = Some x \<Longrightarrow> \<exists>v. getitem x k = Inr v \<and> get_attr x k = Some v"
  by (auto simp: getitem_def dest!: find_matches matches_has_attr)

lemma parse_date_returns: "\<exists>r. parse_date pad s = Inr r"
  using try_formats_returns [of pad "strip s" DATE_FORMATS]
  by (cases "parse_date pad s") (auto simp: parse_date_def)

lemma extract_tags_nonempty: "extract_tags c t e \<noteq> []"
proof -
  have "''databases'' \<in> set (extract_tags c t e)"
    by (simp add: extract_tags_def tag_set_finite tag_set_default)
  then show ?thesis by auto
qed

lemma BlogPost_init_fields:
  "title (BlogPost_init t u d i e ts) = t"
  "url (BlogPost_init t u d i e ts) = u"
  "date (BlogPost_init t u d i e ts) = d"
  "image (BlogPost_init t u d i e ts) = i"
  "excerpt (BlogPost_init t u d i e ts) = take 200 e"
  "ts' \<noteq> [] \<Longrightarrow> tags (BlogPost_init t u d i e (Some ts')) = ts'"
  by (simp_all add: BlogPost_init_def EXCERPT_MAX_LENGTH_def)

lemma extract_post_data_no_title:
  "or_else (find c ''h2'' []) (or_else (find c ''h3'' []) (find c ''a'' [])) = None
   \<Longrightarrow> extract_post_data pad c = None"
  by (simp add: extract_post_data_def)

lemma extract_post_data_no_link:
  "find c ''a'' [HasAttr ''href''] = None \<Longrightarrow> extract_post_data pad c = None"
  by (simp add: extract_post_data_def Let_def split: option.splits)

lemma extract_post_data_eq:
  assumes te: "or_else (find c ''h2'' []) (or_else (find c ''h3'' []) (find c ''a'' [])) = Some te"
    and le: "find c ''a'' [HasAttr ''href''] = Some le"
    and u: "get_attr le ''href'' = Some u"
  shows "\<exists>d. extract_post_data pad c =
           Some (BlogPost_init (get_text te)
                   (if \<not> startswith u ''http'' then ''https://www.cockroachlabs.com'' @ u else u)
                   d
                   (case find c ''img'' [] of
                      None \<Rightarrow> None
                    | Some ie \<Rightarrow>
                        (case get_attr ie ''src'' of
                           None \<Rightarrow> None
                         | Some v \<Rightarrow> if v \<noteq> [] \<and> \<not> startswith v ''http''
                                      then Some (''https://www.cockroachlabs.com'' @ v) else Some v))
                   (case or_else (find c ''p'' [])
                           (find c ''div'' [ClassSearch [''excerpt'', ''description'', ''summary'']]) of
                      Some e \<Rightarrow> get_text e | None \<Rightarrow> [])
                   (Some (extract_tags c (get_text te)
                      (case or_else (find c ''p'' [])
                           (find c ''div'' [ClassSearch [''excerpt'', ''description'', ''summary'']]) of
                      Some e \<Rightarrow> get_text e | None \<Rightarrow> []))))"
proof -
  from u have gi: "getitem le ''href'' = Inr u" by (simp add: getitem_def)
  define ds where "ds = (case or_else (find c ''time'' []) (find c ''span'' [ClassSearch [''date'']]) of
                           Some e \<Rightarrow> Some (get_text e) | None \<Rightarrow> None)"
  define r where "r = (case ds of None \<Rightarrow> Inr None | Some s \<Rightarrow> if s \<noteq> [] then parse_date pad s else Inr None)"
  have "\<exists>d. r = Inr d"
    unfolding r_def using parse_date_returns by (cases ds) auto
  then obtain d where d: "r = Inr d" by blast
  have "extract_post_data pad c =
          (case r of Inl e \<Rightarrow> None
           | Inr published_date \<Rightarrow> Some (BlogPost_init (get_text te)
                   (if \<not> startswith u ''http'' then ''https://www.cockroachlabs.com'' @ u else u)
                   published_date
                   (case find c ''img'' [] of
                      None \<Rightarrow> None
                    | Some ie \<Rightarrow>
                        (case get_attr ie ''src'' of
                           None \<Rightarrow> None
                         | Some v \<Rightarrow> if v \<noteq> [] \<and> \<not> startswith v ''http''
                                      then Some (''https://www.cockroachlabs.com'' @ v) else Some v))
                   (case or_else (find c ''p'' [])
                           (find c ''div'' [ClassSearch [''excerpt'', ''description'', ''summary'']]) of
                      Some e \<Rightarrow> get_text e | None \<Rightarrow> [])
                   (Some (extract_tags c (get_text te)
                      (case or_else (find c ''p'' [])
                           (find c ''div'' [ClassSearch [''excerpt'', ''description'', ''summary'']]) of
                      Some e \<Rightarrow> get_text e | None \<Rightarrow> [])))))"
    unfolding extract_post_data_def Let_def r_def ds_def by (simp add: te le gi)
  with d show ?thesis by (intro exI [of _ d]) simp
qed


lemma extract_post_data_fields:
  assumes te: "or_else (find c ''h2'' []) (or_else (find c ''h3'' []) (find c ''a'' [])) = Some te"
    and le: "find c ''a'' [HasAttr ''href''] = Some le"
    and u: "get_attr le ''href'' = Some u"
  shows "\<exists>p. extract_post_data pad c = Some p
           \<and> title p = get_text te
           \<and> url p = (if startswith u ''http'' then u else ''https://www.cockroachlabs.com'' @ u)
           \<and> image p = (case find c ''img'' [] of
                          None \<Rightarrow> None
                        | Some ie \<Rightarrow>
                            (case get_attr ie ''src'' of
                               None \<Rightarrow> None
                             | Some v \<Rightarrow> Some (if v \<noteq> [] \<and> \<not> startswith v ''http''
                                                then ''https://www.cockroachlabs.com'' @ v else v)))
           \<and> excerpt p = take 200 (case or_else (find c ''p'' [])
                                          (find c ''div'' [ClassSearch [''excerpt'', ''description'', ''summary'']]) of
                                     Some e \<Rightarrow> get_text e | None \<Rightarrow> [])"
proof -
  from extract_post_data_eq [OF te le u, of pad] obtain d p where
    p: "extract_post_data pad c = Some p"
    and "p = BlogPost_init (get_text te)
                   (if \<not> startswith u ''http'' then ''https://www.cockroachlabs.com'' @ u else u)
                   d
                   (case find c ''img'' [] of
                      None \<Rightarrow> None
                    | Some ie \<Rightarrow>
                        (case get_attr ie ''src'' of
                           None \<Rightarrow> None
                         | Some v \<Rightarrow> if v \<noteq> [] \<and> \<not> startswith v ''http''
                                      then Some (''https://www.cockroachlabs.com'' @ v) else Some v))
                   (case or_else (find c ''p'' [])
                           (find c ''div'' [ClassSearch [''excerpt'', ''description'', ''summary'']]) of
                      Some e \<Rightarrow> get_text e | None \<Rightarrow> [])
                   (Some (extract_tags c (get_text te)
                      (case or_else (find c ''p'' [])
                           (find c ''div'' [ClassSearch [''excerpt'', ''description'', ''summary'']]) of
                      Some e \<Rightarrow> get_text e | None \<Rightarrow> [])))"
    by blast
  then show ?thesis
    by (simp add: BlogPost_init_fields split: option.splits)
qed

text \<open>
  C1. A fragment is to be skipped when the text of its title is empty after trimming:
  the docstring of \<open>extract_post_data\<close> requires "at minimum: title and URL", and the
  title is extracted under the comment "Extract title (required)". The fragment
  \<open><article><h2>  </h2><a href="/blog/post">Read more</a></article>\<close> has a title
  element whose text is empty after trimming, and \<open>extract_post_data\<close> does not skip
  it: the test is on the element (\<open>if not title_elem\<close>), which is found, and not on its
  text, so a record with the empty title is returned.
\<close>

theorem extract_post_data_empty_title:
  "get_text (Tag ''h2'' [] [NavigableString ''  '']) = []
   \<and> extract_post_data False
        (Tag ''article'' []
           [Tag ''h2'' [] [NavigableString ''  ''],
            Tag ''a'' [(''href'', ''/blog/post'')] [NavigableString ''Read more'']])
       = Some \<lparr>title = [], url = ''https://www.cockroachlabs.com/blog/post'', date = None,
                image = None, excerpt = [], tags = [''databases'']\<rparr>"
  by code_simp

text \<open>
  The other cases are as required. The extractor returns \<open>None\<close> when the fragment has
  no title element (no \<open>h2\<close>, no \<open>h3\<close> and no \<open>a\<close>); when it has one, and has a
  hyperlink with an \<open>href\<close> attribute, the title of the record is the stripped text of
  the title element.
\<close>

lemma extract_post_data_title:
  "(or_else (find c ''h2'' []) (or_else (find c ''h3'' []) (find c ''a'' [])) = None
      \<longrightarrow> extract_post_data pad c = None)
   \<and> (or_else (find c ''h2'' []) (or_else (find c ''h3'' []) (find c ''a'' [])) = Some te
        \<and> find c ''a'' [HasAttr ''href''] \<noteq> None
      \<longrightarrow> (\<exists>p. extract_post_data pad c = Some p \<and> title p = get_text te))"
proof (intro conjI impI)
  assume "or_else (find c ''h2'' []) (or_else (find c ''h3'' []) (find c ''a'' [])) = None"
  then show "extract_post_data pad c = None" by (rule extract_post_data_no_title)
next
  assume a: "or_else (find c ''h2'' []) (or_else (find c ''h3'' []) (find c ''a'' [])) = Some te
        \<and> find c ''a'' [HasAttr ''href''] \<noteq> None"
  then obtain le where le: "find c ''a'' [HasAttr ''href''] = Some le" by auto
  then obtain u where "get_attr le ''href'' = Some u" using find_has_attr by blast
  with a le extract_post_data_fields [of c te le u pad]
  show "\<exists>p. extract_post_data pad c = Some p \<and> title p = get_text te" by blast
qed

subsection \<open>Relative and absolute addresses\<close>










text \<open>
  An empty \<open>src\<close> does not start with \<open>http\<close>, and yet the origin is not put in front
  of it: the image address is tested for being non-empty first.
\<close>

theorem extract_post_data_empty_src_counterexample:
  "\<not> startswith [] ''http''
   \<and> extract_post_data False
        (Tag ''article'' []
           [Tag ''a'' [(''href'', ''/blog/post'')] [NavigableString ''Post''],
            Tag ''img'' [(''src'', [])] []])
       = Some \<lparr>title = ''Post'', url = ''https://www.cockroachlabs.com/blog/post'', date = None,
                image = Some [], excerpt = [], tags = [''databases'']\<rparr>"
  by code_simp

text \<open>
  C10, as amended. For the post address the test is whether the string starts with
  \<open>http\<close> and nothing else: if it does not (as a protocol-relative
  \<open>//cdn.example.com/x.png\<close> does not) the origin is put in front, and if it does (as
  \<open>httpfoo\<close> does) the string is unchanged. For the image address the test is the
  same on every non-empty string; an empty string is left as it is.
\<close>

theorem extract_post_data_http_prefix:
  "or_else (find c ''h2'' []) (or_else (find c ''h3'' []) (find c ''a'' [])) \<noteq> None
     \<and> find c ''a'' [HasAttr ''href''] = Some le \<and> get_attr le ''href'' = Some u
   \<longrightarrow> (\<exists>p. extract_post_data pad c = Some p
          \<and> url p = (if startswith u ''http'' then u else ''https://www.cockroachlabs.com'' @ u)
          \<and> (\<forall>ie v. find c ''img'' [] = Some ie \<and> get_attr ie ''src'' = Some v \<longrightarrow>
                 image p = Some (if v = [] \<or> startswith v ''http'' then v
                                 else ''https://www.cockroachlabs.com'' @ v)))"
proof (intro impI)
  assume a: "or_else (find c ''h2'' []) (or_else (find c ''h3'' []) (find c ''a'' [])) \<noteq> None
     \<and> find c ''a'' [HasAttr ''href''] = Some le \<and> get_attr le ''href'' = Some u"
  then obtain te where
    "or_else (find c ''h2'' []) (or_else (find c ''h3'' []) (find c ''a'' [])) = Some te"
    by auto
  with a extract_post_data_fields [of c te le u pad] obtain p where
    p: "extract_post_data pad c = Some p"
    and u: "url p = (if startswith u ''http'' then u else ''https://www.cockroachlabs.com'' @ u)"
    and i: "image p = (case find c ''img'' [] of
                          None \<Rightarrow> None
                        | Some ie \<Rightarrow>
                            (case get_attr ie ''src'' of
                               None \<Rightarrow> None
                             | Some v \<Rightarrow> Some (if v \<noteq> [] \<and> \<not> startswith v ''http''
                                                then ''https://www.cockroachlabs.com'' @ v else v)))"
    by blast
  from i have "\<forall>ie v. find c ''img'' [] = Some ie \<and> get_attr ie ''src'' = Some v \<longrightarrow>
                 image p = Some (if v = [] \<or> startswith v ''http'' then v
                                 else ''https://www.cockroachlabs.com'' @ v)"
    by auto
  with p u show "\<exists>p. extract_post_data pad c = Some p
          \<and> url p = (if startswith u ''http'' then u else ''https://www.cockroachlabs.com'' @ u)
          \<and> (\<forall>ie v. find c ''img'' [] = Some ie \<and> get_attr ie ''src'' = Some v \<longrightarrow>
                 image p = Some (if v = [] \<or> startswith v ''http'' then v
                                 else ''https://www.cockroachlabs.com'' @ v))"
    by blast
qed

theorem extract_post_data_http_prefix_witness:
  "find (Tag ''div'' []
           [Tag ''a'' [(''href'', ''httpfoo'')] [NavigableString ''Post''],
            Tag ''img'' [(''src'', ''//cdn.example.com/x.png'')] []]) ''a'' [HasAttr ''href'']
     = Some (Tag ''a'' [(''href'', ''httpfoo'')] [NavigableString ''Post''])
   \<and> startswith ''httpfoo'' ''http''
   \<and> \<not> startswith ''//cdn.example.com/x.png'' ''http''
   \<and> map_option url (extract_post_data True
         (Tag ''div'' []
           [Tag ''a'' [(''href'', ''httpfoo'')] [NavigableString ''Post''],
            Tag ''img'' [(''src'', ''//cdn.example.com/x.png'')] []]))
       = Some ''httpfoo''
   \<and> map_option image (extract_post_data True
         (Tag ''div'' []
           [Tag ''a'' [(''href'', ''httpfoo'')] [NavigableString ''Post''],
            Tag ''img'' [(''src'', ''//cdn.example.com/x.png'')] []]))
       = Some (Some ''https://www.cockroachlabs.com//cdn.example.com/x.png'')"
proof -
  define c where "c = Tag ''div'' []
           [Tag ''a'' [(''href'', ''httpfoo'')] [NavigableString ''Post''],
            Tag ''img'' [(''src'', ''//cdn.example.com/x.png'')] []]"
  define le where "le = Tag ''a'' [(''href'', ''httpfoo'')] [NavigableString ''Post'']"
  define ie where "ie = Tag ''img'' [(''src'', ''//cdn.example.com/x.png'')] []"
  have te: "or_else (find c ''h2'' []) (or_else (find c ''h3'' []) (find c ''a'' [])) \<noteq> None"
    unfolding c_def by code_simp
  have l: "find c ''a'' [HasAttr ''href''] = Some le" unfolding c_def le_def by code_simp
  have h: "get_attr le ''href'' = Some ''httpfoo''" unfolding le_def by simp
  have i: "find c ''img'' [] = Some ie" unfolding c_def ie_def by code_simp
  have s: "get_attr ie ''src'' = Some ''//cdn.example.com/x.png''" unfolding ie_def by simp
  have a: "startswith ''httpfoo'' ''http''" by (simp add: startswith_def)
  have r: "\<not> startswith ''//cdn.example.com/x.png'' ''http''" by (simp add: startswith_def)
  from extract_post_data_http_prefix [of c le "''httpfoo''" True] te l h
  obtain p where p: "extract_post_data True c = Some p"
    and "url p = (if startswith ''httpfoo'' ''http'' then ''httpfoo''
                  else ''https://www.cockroachlabs.com'' @ ''httpfoo'')"
    and "\<forall>ie v. find c ''img'' [] = Some ie \<and> get_attr ie ''src'' = Some v \<longrightarrow>
                 image p = Some (if v = [] \<or> startswith v ''http'' then v
                                 else ''https://www.cockroachlabs.com'' @ v)"
    by blast
  with a r i s have "url p = ''httpfoo''"
    and "image p = Some (''https://www.cockroachlabs.com'' @ ''//cdn.example.com/x.png'')"
    by auto
  with p have "map_option url (extract_post_data True c) = Some ''httpfoo''"
    and "map_option image (extract_post_data True c)
                 = Some (Some ''https://www.cockroachlabs.com//cdn.example.com/x.png'')"
    by simp_all
  with l a r show ?thesis unfolding c_def le_def by simp
qed

subsection \<open>The excerpt\<close>

lemma extract_post_data_excerpt:
  assumes "extract_post_data pad c = Some p"
  shows "excerpt p = take 200 (case or_else (find c ''p'' [])
                                      (find c ''div'' [ClassSearch [''excerpt'', ''description'', ''summary'']]) of
                                 Some e \<Rightarrow> get_text e | None \<Rightarrow> [])"
proof -
  from assms obtain te where
    te: "or_else (find c ''h2'' []) (or_else (find c ''h3'' []) (find c ''a'' [])) = Some te"
    using extract_post_data_no_title [of c pad] by (cases "or_else (find c ''h2'' []) (or_else (find c ''h3'' []) (find c ''a'' []))") auto
  from assms obtain le where le: "find c ''a'' [HasAttr ''href''] = Some le"
    using extract_post_data_no_link [of c pad] by (cases "find c ''a'' [HasAttr ''href'']") auto
  then obtain u where "get_attr le ''href'' = Some u" using find_has_attr by blast
  with te le assms extract_post_data_fields [of c te le u pad] show ?thesis by auto
qed

text \<open>
  C5. The excerpt of a record is the first 200 characters of the excerpt text it was
  built from: at most 200 characters long, exactly 200 when the text is longer than
  that, and empty when no excerpt element was found.
\<close>

theorem excerpt_truncated:
  "excerpt (BlogPost_init t u d i e ts) = take 200 e
   \<and> length (excerpt (BlogPost_init t u d i e ts)) \<le> 200
   \<and> (200 < length e \<longrightarrow> length (excerpt (BlogPost_init t u d i e ts)) = 200)
   \<and> (extract_post_data pad c = Some p \<longrightarrow>
        excerpt p = take 200 (case or_else (find c ''p'' [])
                                      (find c ''div'' [ClassSearch [''excerpt'', ''description'', ''summary'']]) of
                                 Some el \<Rightarrow> get_text el | None \<Rightarrow> [])
        \<and> length (excerpt p) \<le> 200
        \<and> (or_else (find c ''p'' [])
              (find c ''div'' [ClassSearch [''excerpt'', ''description'', ''summary'']]) = None
            \<longrightarrow> excerpt p = []))"
proof -
  have "excerpt p = take 200 (case or_else (find c ''p'' [])
                                      (find c ''div'' [ClassSearch [''excerpt'', ''description'', ''summary'']]) of
                                 Some el \<Rightarrow> get_text el | None \<Rightarrow> [])
        \<and> length (excerpt p) \<le> 200
        \<and> (or_else (find c ''p'' [])
              (find c ''div'' [ClassSearch [''excerpt'', ''description'', ''summary'']]) = None
            \<longrightarrow> excerpt p = [])"
    if "extract_post_data pad c = Some p"
    using extract_post_data_excerpt [OF that] by simp
  then show ?thesis by (simp add: BlogPost_init_fields)
qed

theorem excerpt_truncated_witness:
  "200 < length (replicate 250 CHR ''x'')
   \<and> map_option excerpt (extract_post_data False
        (Tag ''div'' []
           [Tag ''a'' [(''href'', ''/p'')] [NavigableString ''T''],
            Tag ''p'' [] [NavigableString (replicate 250 CHR ''x'')]]))
       = Some (replicate 200 CHR ''x'')
   \<and> excerpt (BlogPost_init ''T'' ''https://www.cockroachlabs.com/p'' None None
                 (replicate 250 CHR ''x'') None) = replicate 200 CHR ''x''
   \<and> length (replicate 200 CHR ''x'') = 200"
proof -
  define c where "c = Tag ''div'' []
           [Tag ''a'' [(''href'', ''/p'')] [NavigableString ''T''],
            Tag ''p'' [] [NavigableString (replicate 250 CHR ''x'')]]"
  define le where "le = Tag ''a'' [(''href'', ''/p'')] [NavigableString ''T'']"
  have long: "200 < length (replicate 250 CHR ''x'')" by simp
  have te: "or_else (find c ''h2'' []) (or_else (find c ''h3'' []) (find c ''a'' [])) = Some le"
    unfolding c_def le_def by code_simp
  have l: "find c ''a'' [HasAttr ''href''] = Some le" unfolding c_def le_def by code_simp
  have h: "get_attr le ''href'' = Some ''/p''" unfolding le_def by simp
  have x: "(case or_else (find c ''p'' [])
                   (find c ''div'' [ClassSearch [''excerpt'', ''description'', ''summary'']]) of
              Some el \<Rightarrow> get_text el | None \<Rightarrow> []) = replicate 250 CHR ''x''"
    unfolding c_def by code_simp
  from extract_post_data_fields [OF te l h, of False]
  obtain p where e: "extract_post_data False c = Some p" by blast
  from excerpt_truncated [of "''T''" "''https://www.cockroachlabs.com/p''" None None
         "replicate 250 CHR ''x''" None False c p] long e x
  have "excerpt (BlogPost_init ''T'' ''https://www.cockroachlabs.com/p'' None None
                 (replicate 250 CHR ''x'') None) = take 200 (replicate 250 CHR ''x'')"
    and "excerpt p = take 200 (replicate 250 CHR ''x'')"
    by simp_all
  then have "excerpt (BlogPost_init ''T'' ''https://www.cockroachlabs.com/p'' None None
                 (replicate 250 CHR ''x'') None) = replicate 200 CHR ''x''"
    and "excerpt p = replicate 200 CHR ''x''"
    by simp_all
  with long e show ?thesis unfolding c_def by simp
qed

section \<open>Properties of the page scraper\<close>

lemma collect_posts_eq:
  "collect_posts pad cs acc = acc @ List.map_filter (extract_post_data pad) cs"
proof (induction cs arbitrary: acc)
  case Nil
  show ?case by (simp add: List.map_filter_simps)
next
  case (Cons c cs)
  show ?case
    by (cases "extract_post_data pad c") (simp_all add: Cons.IH List.map_filter_simps)
qed

subsection \<open>The class pattern is a substring test\<close>

lemma sublist_across:
  assumes "c \<notin> set alt" and "sublist alt (x @ c # y)"
  shows "sublist alt x \<or> sublist alt y"
proof -
  from assms(2) consider "sublist alt x" | "sublist alt (c # y)"
    | xs1 xs2 where "alt = xs1 @ xs2" "suffix xs1 x" "prefix xs2 (c # y)"
    by (auto simp: sublist_append)
  then show ?thesis
  proof cases
    case 1
    then show ?thesis by simp
  next
    case 2
    then have "prefix alt (c # y) \<or> sublist alt y" by (simp add: sublist_Cons_right)
    then show ?thesis
    proof
      assume "prefix alt (c # y)"
      with assms(1) have "alt = []" by (cases alt) auto
      then show ?thesis by simp
    next
      assume "sublist alt y"
      then show ?thesis by simp
    qed
  next
    case 3
    from 3(1) assms(1) have "c \<notin> set xs2" by simp
    with 3(3) have "xs2 = []" by (cases xs2) auto
    with 3(1,2) show ?thesis by auto
  qed
qed

lemma token_sublist:
  "t \<in> set (nonwhitespace_findall acc v) \<Longrightarrow> sublist t (rev acc @ v)"
proof (induction acc v rule: nonwhitespace_findall.induct)
  case (1 acc)
  then show ?case by (auto split: if_splits)
next
  case (2 acc c cs)
  show ?case
  proof (cases "isspace c")
    case True
    have tail: "sublist t (rev acc @ c # cs)" if "t \<in> set (nonwhitespace_findall [] cs)"
    proof -
      from that 2 True have "sublist t cs" by (cases "acc = []") auto
      then have "sublist t (c # cs)" by (simp add: sublist_Cons_right)
      then show ?thesis by (simp add: sublist_append)
    qed
    from 2(4) True have "t = rev acc \<or> t \<in> set (nonwhitespace_findall [] cs)"
      by (auto split: if_splits)
    then show ?thesis using tail by auto
  next
    case False
    with 2 show ?thesis by simp
  qed
qed

lemma sublist_token:
  assumes "alt \<noteq> []" and "\<forall>c\<in>set alt. \<not> isspace c"
  shows "sublist alt (rev acc @ v) \<Longrightarrow> \<exists>t\<in>set (nonwhitespace_findall acc v). sublist alt t"
proof (induction acc v rule: nonwhitespace_findall.induct)
  case (1 acc)
  with assms(1) have "acc \<noteq> []" by auto
  with 1 show ?case by simp
next
  case (2 acc c cs)
  show ?case
  proof (cases "isspace c")
    case True
    with assms(2) have "c \<notin> set alt" by auto
    then have "sublist alt (rev acc) \<or> sublist alt cs" using 2(4) by (rule sublist_across)
    then show ?thesis
    proof
      assume a: "sublist alt (rev acc)"
      with assms(1) have "acc \<noteq> []" by auto
      with a True show ?thesis by simp
    next
      assume "sublist alt cs"
      with 2 True have "\<exists>t\<in>set (nonwhitespace_findall [] cs). sublist alt t"
        by (cases "acc = []") auto
      with True show ?thesis by auto
    qed
  next
    case False
    with 2 show ?thesis by simp
  qed
qed

lemma sublist_join_space:
  assumes "\<forall>c\<in>set alt. \<not> isspace c"
  shows "sublist alt (join_space ts) \<Longrightarrow> alt = [] \<or> (\<exists>t\<in>set ts. sublist alt t)"
proof (induction ts rule: join_space.induct)
  case 1
  then show ?case by simp
next
  case (2 x)
  then show ?case by simp
next
  case (3 x y ys)
  have "isspace CHR '' ''" by (simp add: isspace_def)
  with assms have "CHR '' '' \<notin> set alt" by auto
  moreover from 3(2) have "sublist alt (x @ CHR '' '' # join_space (y # ys))" by simp
  ultimately have "sublist alt x \<or> sublist alt (join_space (y # ys))" by (rule sublist_across)
  with 3(1) show ?case by auto
qed

lemma class_search_substring:
  assumes "\<forall>alt\<in>set alts. alt \<noteq> [] \<and> (\<forall>c\<in>set alt. \<not> isspace c)"
  shows "(list_ex (re_search alts) (nonwhitespace_findall [] v)
            \<or> re_search alts (join_space (nonwhitespace_findall [] v)))
         \<longleftrightarrow> (\<exists>alt\<in>set alts. sublist alt v)"
proof
  assume "list_ex (re_search alts) (nonwhitespace_findall [] v)
            \<or> re_search alts (join_space (nonwhitespace_findall [] v))"
  then obtain alt where alt: "alt \<in> set alts"
    and "(\<exists>t\<in>set (nonwhitespace_findall [] v). sublist alt t)
         \<or> sublist alt (join_space (nonwhitespace_findall [] v))"
    by (auto simp: re_search_def str_in_def list_ex_iff)
  with assms sublist_join_space [of alt "nonwhitespace_findall [] v"]
  obtain t where "t \<in> set (nonwhitespace_findall [] v)" "sublist alt t" by blast
  moreover from this(1) have "sublist t v" using token_sublist [of t "[]" v] by simp
  ultimately have "sublist alt v" using sublist_order.order.trans by blast
  with alt show "\<exists>alt\<in>set alts. sublist alt v" by blast
next
  assume "\<exists>alt\<in>set alts. sublist alt v"
  then obtain alt where alt: "alt \<in> set alts" "sublist alt v" by blast
  with assms have "alt \<noteq> []" "\<forall>c\<in>set alt. \<not> isspace c" by auto
  from sublist_token [OF this, of "[]" v] alt(2)
  have "\<exists>t\<in>set (nonwhitespace_findall [] v). sublist alt t" by simp
  with alt(1) show "list_ex (re_search alts) (nonwhitespace_findall [] v)
            \<or> re_search alts (join_space (nonwhitespace_findall [] v))"
    by (auto simp: re_search_def str_in_def list_ex_iff)
qed

lemma matches_div_class:
  "matches ''div'' [ClassSearch [''post'', ''article'', ''card'']] (Tag n a cs) \<longleftrightarrow>
     n = ''div'' \<and> (\<exists>v. map_of a ''class'' = Some v
                      \<and> (sublist ''post'' v \<or> sublist ''article'' v \<or> sublist ''card'' v))"
proof -
  have ok: "\<forall>alt\<in>set [''post'', ''article'', ''card'']. alt \<noteq> [] \<and> (\<forall>c\<in>set alt. \<not> isspace c)"
    by (simp add: isspace_def)
  show ?thesis
    by (cases "map_of a ''class''") (simp_all add: Let_def class_search_substring [OF ok])
qed

subsection \<open>Candidates and their records\<close>

lemma map_Some_map_filter:
  "map Some (List.map_filter f xs) = filter (\<lambda>r. r \<noteq> None) (map f xs)"
  by (induction xs) (auto simp: List.map_filter_simps split: option.splits)

lemma matches_article: "matches ''article'' [] (Tag n a cs) \<longleftrightarrow> n = ''article''"
  by simp

text \<open>
  C6. The candidates of a page are all its \<open>article\<close> elements if there is one, and
  otherwise all its \<open>div\<close> elements whose \<open>class\<close> attribute contains \<open>post\<close>,
  \<open>article\<close> or \<open>card\<close> as a substring, letter case as written; both are taken from
  the elements of the page in document order. When the page was fetched, the scraper
  returns the records the extractor gives for the candidates, in the order of the
  candidates, every result that is not \<open>None\<close> and no other.
\<close>

theorem scrape_candidates_in_order:
  "post_cards soup =
     (if find_all soup ''article'' [] \<noteq> [] then find_all soup ''article'' []
      else find_all soup ''div'' [ClassSearch [''post'', ''article'', ''card'']])
   \<and> find_all soup ''article'' [] = filter (matches ''article'' []) (descendants soup)
   \<and> find_all soup ''div'' [ClassSearch [''post'', ''article'', ''card'']]
       = filter (matches ''div'' [ClassSearch [''post'', ''article'', ''card'']]) (descendants soup)
   \<and> (matches ''article'' [] (Tag n a cs) \<longleftrightarrow> n = ''article'')
   \<and> (matches ''div'' [ClassSearch [''post'', ''article'', ''card'']] (Tag n a cs) \<longleftrightarrow>
        n = ''div'' \<and> (\<exists>v. map_of a ''class'' = Some v
                         \<and> (sublist ''post'' v \<or> sublist ''article'' v \<or> sublist ''card'' v)))
   \<and> (fst (session_get session server) = Inr response \<and> raise_for_status response = Inr ()
       \<longrightarrow> (\<exists>posts. scrape_crl_author_page pad session server = Inr posts
              \<and> map Some posts =
                  filter (\<lambda>r. r \<noteq> None)
                    (map (extract_post_data pad) (post_cards (content response)))))"
proof -
  have "\<exists>posts. scrape_crl_author_page pad session server = Inr posts
              \<and> map Some posts =
                  filter (\<lambda>r. r \<noteq> None)
                    (map (extract_post_data pad) (post_cards (content response)))"
    if "fst (session_get session server) = Inr response" "raise_for_status response = Inr ()"
    using that
    by (simp add: scrape_crl_author_page_def collect_posts_eq map_Some_map_filter)
  then show ?thesis
    using matches_div_class [of n a cs]
    by (simp add: post_cards_def Let_def find_all_def)
qed

theorem scrape_candidates_in_order_witness:
  "fst (session_get retry_strategy
          (\<lambda>n. Reply \<lparr>status_code = 200, retry_after = None, location = None, content_ok = True,
                        content = Tag ''[document]'' []
                          [Tag ''div'' [(''class'', ''Post'')]
                             [Tag ''a'' [(''href'', ''/a'')] [NavigableString ''A'']],
                           Tag ''div'' [(''class'', ''x  my-card'')]
                             [Tag ''a'' [(''href'', ''/b'')] [NavigableString ''B'']],
                           Tag ''div'' [(''class'', ''blog-post'')] [Tag ''p'' [] []],
                           Tag ''div'' [(''class'', ''article big'')]
                             [Tag ''a'' [(''href'', ''/c'')] [NavigableString ''C'']]]\<rparr>))
     = Inr \<lparr>status_code = 200, retry_after = None, location = None, content_ok = True,
             content = Tag ''[document]'' []
                          [Tag ''div'' [(''class'', ''Post'')]
                             [Tag ''a'' [(''href'', ''/a'')] [NavigableString ''A'']],
                           Tag ''div'' [(''class'', ''x  my-card'')]
                             [Tag ''a'' [(''href'', ''/b'')] [NavigableString ''B'']],
                           Tag ''div'' [(''class'', ''blog-post'')] [Tag ''p'' [] []],
                           Tag ''div'' [(''class'', ''article big'')]
                             [Tag ''a'' [(''href'', ''/c'')] [NavigableString ''C'']]]\<rparr>
   \<and> scrape_crl_author_page False retry_strategy
          (\<lambda>n. Reply \<lparr>status_code = 200, retry_after = None, location = None, content_ok = True,
                        content = Tag ''[document]'' []
                          [Tag ''div'' [(''class'', ''Post'')]
                             [Tag ''a'' [(''href'', ''/a'')] [NavigableString ''A'']],
                           Tag ''div'' [(''class'', ''x  my-card'')]
                             [Tag ''a'' [(''href'', ''/b'')] [NavigableString ''B'']],
                           Tag ''div'' [(''class'', ''blog-post'')] [Tag ''p'' [] []],
                           Tag ''div'' [(''class'', ''article big'')]
                             [Tag ''a'' [(''href'', ''/c'')] [NavigableString ''C'']]]\<rparr>)
     = Inr [\<lparr>title = ''B'', url = ''https://www.cockroachlabs.com/b'', date = None,
              image = None, excerpt = [], tags = [''databases'']\<rparr>,
            \<lparr>title = ''C'', url = ''https://www.cockroachlabs.com/c'', date = None,
              image = None, excerpt = [], tags = [''databases'']\<rparr>]"
proof -
  define soup where "soup = Tag ''[document]'' []
                          [Tag ''div'' [(''class'', ''Post'')]
                             [Tag ''a'' [(''href'', ''/a'')] [NavigableString ''A'']],
                           Tag ''div'' [(''class'', ''x  my-card'')]
                             [Tag ''a'' [(''href'', ''/b'')] [NavigableString ''B'']],
                           Tag ''div'' [(''class'', ''blog-post'')] [Tag ''p'' [] []],
                           Tag ''div'' [(''class'', ''article big'')]
                             [Tag ''a'' [(''href'', ''/c'')] [NavigableString ''C'']]]"
  define response where "response = \<lparr>status_code = 200, retry_after = None, location = None, content_ok = True, content = soup\<rparr>"
  define b where "b = \<lparr>title = ''B'', url = ''https://www.cockroachlabs.com/b'', date = None,
              image = None, excerpt = [], tags = [''databases'']\<rparr>"
  define c where "c = \<lparr>title = ''C'', url = ''https://www.cockroachlabs.com/c'', date = None,
              image = None, excerpt = [], tags = [''databases'']\<rparr>"
  have g: "fst (session_get retry_strategy (\<lambda>n. Reply response)) = Inr response"
    unfolding response_def soup_def by code_simp
  have s: "raise_for_status response = Inr ()"
    by (simp add: raise_for_status_def response_def)
  have k: "filter (\<lambda>r. r \<noteq> None) (map (extract_post_data False) (post_cards (content response)))
           = [Some b, Some c]"
    unfolding response_def soup_def b_def c_def by code_simp
  from scrape_candidates_in_order [of soup n a cs retry_strategy "\<lambda>n. Reply response" response False]
    g s
  obtain posts where p: "scrape_crl_author_page False retry_strategy (\<lambda>n. Reply response) = Inr posts"
    and "map Some posts =
           filter (\<lambda>r. r \<noteq> None) (map (extract_post_data False) (post_cards (content response)))"
    by blast
  with k have "map Some posts = map Some [b, c]" by simp
  then have "posts = [b, c]" by (simp only: inj_map_eq_map [OF inj_Some])
  with p g show ?thesis unfolding response_def soup_def b_def c_def by simp
qed

section \<open>Properties of the entry point\<close>

lemma main_cases:
  "main pad server now disk files =
     (case scrape_crl_author_page pad retry_strategy server of
        Inl e \<Rightarrow> (1, files)
      | Inr posts \<Rightarrow>
          if posts = [] then (1, files)
          else (case disk of
                  Some e \<Rightarrow> (1, files)
                | None \<Rightarrow> (0, files(OUTPUT_PATH \<mapsto> generate_typescript_file now posts))))"
  by (simp add: main_def write_output_file_def split: sum.splits option.splits)

text \<open>
  C7. The exit code is 0 exactly when the scrape returned at least one record and the
  output file was written, and then the file holds what was generated from these
  records. Otherwise the exit code is 1: when no record was extracted, when the scrape
  raised (the fetch failed), and when the write raised.
\<close>

theorem main_exit_code:
  "(fst (main pad server now disk files) = 0 \<longleftrightarrow>
      (\<exists>posts files'. scrape_crl_author_page pad retry_strategy server = Inr posts \<and> posts \<noteq> []
         \<and> write_output_file disk (generate_typescript_file now posts) OUTPUT_PATH files
             = Inr files'))
   \<and> (\<forall>posts files'. scrape_crl_author_page pad retry_strategy server = Inr posts \<and> posts \<noteq> []
         \<and> write_output_file disk (generate_typescript_file now posts) OUTPUT_PATH files
             = Inr files'
        \<longrightarrow> snd (main pad server now disk files) = files'
            \<and> files' OUTPUT_PATH = Some (generate_typescript_file now posts))
   \<and> (fst (main pad server now disk files) \<noteq> 0 \<longrightarrow>
        fst (main pad server now disk files) = 1)
   \<and> (scrape_crl_author_page pad retry_strategy server = Inr []
        \<longrightarrow> fst (main pad server now disk files) = 1)
   \<and> (isl (scrape_crl_author_page pad retry_strategy server)
        \<longrightarrow> fst (main pad server now disk files) = 1)
   \<and> (disk \<noteq> None \<longrightarrow> fst (main pad server now disk files) = 1)"
proof (cases "scrape_crl_author_page pad retry_strategy server")
  case (Inl e)
  then show ?thesis by (simp add: main_cases)
next
  case (Inr posts)
  show ?thesis
  proof (cases "posts = []")
    case True
    with Inr show ?thesis by (simp add: main_cases)
  next
    case False
    with Inr show ?thesis
      by (cases disk) (auto simp: main_cases write_output_file_def)
  qed
qed

theorem main_exit_code_witness:
  "scrape_crl_author_page False retry_strategy
      (\<lambda>n. if n < 2 then Reply \<lparr>status_code = 503, retry_after = None, location = None, content_ok = True,
                                    content = Tag ''[document]'' [] []\<rparr>
            else Reply \<lparr>status_code = 200, retry_after = None, location = None, content_ok = True,
                         content = Tag ''[document]'' []
                           [Tag ''article'' []
                              [Tag ''a'' [(''href'', ''/b'')] [NavigableString ''B'']]]\<rparr>)
     = Inr [\<lparr>title = ''B'', url = ''https://www.cockroachlabs.com/b'', date = None,
              image = None, excerpt = [], tags = [''databases'']\<rparr>]
   \<and> fst (main False
      (\<lambda>n. if n < 2 then Reply \<lparr>status_code = 503, retry_after = None, location = None, content_ok = True,
                                    content = Tag ''[document]'' [] []\<rparr>
            else Reply \<lparr>status_code = 200, retry_after = None, location = None, content_ok = True,
                         content = Tag ''[document]'' []
                           [Tag ''article'' []
                              [Tag ''a'' [(''href'', ''/b'')] [NavigableString ''B'']]]\<rparr>)
      ''2026-01-01 00:00:00'' None Map.empty) = 0
   \<and> fst (main False
      (\<lambda>n. if n < 2 then Reply \<lparr>status_code = 503, retry_after = None, location = None, content_ok = True,
                                    content = Tag ''[document]'' [] []\<rparr>
            else Reply \<lparr>status_code = 200, retry_after = None, location = None, content_ok = True,
                         content = Tag ''[document]'' []
                           [Tag ''article'' []
                              [Tag ''a'' [(''href'', ''/b'')] [NavigableString ''B'']]]\<rparr>)
      ''2026-01-01 00:00:00'' (Some OSError) Map.empty) = 1"
proof -
  define server where "server = (\<lambda>n::nat. if n < 2 then Reply \<lparr>status_code = 503, retry_after = None, location = None, content_ok = True,
                                    content = Tag ''[document]'' [] []\<rparr>
            else Reply \<lparr>status_code = 200, retry_after = None, location = None, content_ok = True,
                         content = Tag ''[document]'' []
                           [Tag ''article'' []
                              [Tag ''a'' [(''href'', ''/b'')] [NavigableString ''B'']]]\<rparr>)"
  define b where "b = \<lparr>title = ''B'', url = ''https://www.cockroachlabs.com/b'', date = None,
              image = None, excerpt = [], tags = [''databases'']\<rparr>"
  have s: "scrape_crl_author_page False retry_strategy server = Inr [b]"
    unfolding server_def b_def by code_simp
  have w: "write_output_file None (generate_typescript_file ''2026-01-01 00:00:00'' [b])
             OUTPUT_PATH Map.empty
           = Inr (Map.empty (OUTPUT_PATH \<mapsto> generate_typescript_file ''2026-01-01 00:00:00'' [b]))"
    by (simp add: write_output_file_def)
  from main_exit_code [of False server "''2026-01-01 00:00:00''" None Map.empty] s w
  have ok: "fst (main False server ''2026-01-01 00:00:00'' None Map.empty) = 0"
    by blast
  from main_exit_code [of False server "''2026-01-01 00:00:00''" "Some OSError" Map.empty]
  have bad: "fst (main False server ''2026-01-01 00:00:00'' (Some OSError) Map.empty) = 1"
    by simp
  from s ok bad show ?thesis unfolding server_def b_def by simp
qed

section \<open>Properties of the HTTP client\<close>

subsection \<open>One call of the adapter\<close>

lemma urlopen_final:
  assumes "server (requests tr) = Reply resp"
    and "\<not> is_retry r m (status_code resp) (has_retry_after resp)"
  shows "urlopen m server r tr = (Inr resp, tr\<lparr>requests := requests tr + 1\<rparr>)"
  using assms by (subst urlopen.simps) (simp add: Let_def)

lemma urlopen_exhausted:
  assumes "case server (requests tr) of
             Reply resp \<Rightarrow> is_retry r m (status_code resp) (has_retry_after resp)
           | _ \<Rightarrow> True"
    and "increment r m (server (requests tr)) = Inl e"
    and "raise_on_status r"
  shows "urlopen m server r tr = (Inl e, tr\<lparr>requests := requests tr + 1\<rparr>)"
  using assms by (subst urlopen.simps, cases "server (requests tr)") (simp_all add: Let_def)

lemma urlopen_invalid:
  assumes "case server (requests tr) of
             Reply resp \<Rightarrow> is_retry r m (status_code resp) (has_retry_after resp)
           | _ \<Rightarrow> True"
    and "increment r m (server (requests tr)) = Inr r'"
    and "sleep_time r' (server (requests tr)) = Inl e"
  shows "urlopen m server r tr = (Inl e, tr\<lparr>requests := requests tr + 1\<rparr>)"
  using assms by (subst urlopen.simps, cases "server (requests tr)") (simp_all add: Let_def)

lemma urlopen_retry:
  assumes "case server (requests tr) of
             Reply resp \<Rightarrow> is_retry r m (status_code resp) (has_retry_after resp)
           | _ \<Rightarrow> True"
    and "increment r m (server (requests tr)) = Inr r'"
    and "sleep_time r' (server (requests tr)) = Inr seconds"
  shows "urlopen m server r tr =
           urlopen m server r'
             (tr\<lparr>requests := requests tr + 1, sleeps := sleeps tr @ [seconds]\<rparr>)"
  using assms by (subst urlopen.simps, cases "server (requests tr)") (simp_all add: Let_def)

lemma is_retry_retry_strategy:
  "is_retry (retry_strategy\<lparr>retry_after_max := limit\<rparr>) m s h \<longleftrightarrow>
     m \<in> {''GET'', ''HEAD''} \<and> (s \<in> {500, 502, 503, 504} \<or> h \<and> s \<in> {413, 429, 503})"
  by (auto simp: is_retry_def is_method_retryable_def retry_strategy_def MAX_RETRIES_def
                 RETRY_AFTER_STATUS_CODES_def)

lemma is_retry_total_0:
  "total r = 0 \<Longrightarrow> is_retry r m s h \<Longrightarrow> s \<in> set (status_forcelist r)"
  by (auto simp: is_retry_def split: if_splits)

lemma retried_iff:
  "retried oc \<longleftrightarrow>
     (case oc of
        Reply response \<Rightarrow>
          status_code response \<in> {500, 502, 503, 504}
          \<or> has_retry_after response \<and> status_code response \<in> {413, 429, 503}
      | _ \<Rightarrow> True)"
  by (cases oc)
     (auto simp: retried_def is_retry_def is_method_retryable_def retry_strategy_def
                 MAX_RETRIES_def RETRY_AFTER_STATUS_CODES_def)

lemma get_backoff_time_history:
  assumes "backoff_factor r = RETRY_BACKOFF_FACTOR" "length (history r) = Suc k" "k < 7"
  shows "get_backoff_time r = (if k = 0 then 0 else RETRY_BACKOFF_FACTOR * 2 ^ k)"
proof -
  from assms(3) have "(2::nat) ^ k \<le> 2 ^ 6" by (intro power_increasing) auto
  with assms(1,2) show ?thesis
    by (simp add: get_backoff_time_def RETRY_BACKOFF_FACTOR_def DEFAULT_BACKOFF_MAX_def)
qed

lemma sleep_time_unreadable:
  assumes "respect_retry_after_header r" "unreadable_retry_after oc"
  shows "sleep_time r oc = Inl InvalidHeader"
  using assms
  by (cases oc)
     (auto simp: sleep_time_def unreadable_retry_after_def get_retry_after_def
                 parse_retry_after_def)

lemma sleep_time_readable:
  assumes "backoff_factor r = RETRY_BACKOFF_FACTOR" "respect_retry_after_header r"
    and "retry_after_max r = limit" "length (history r) = Suc k" "k < 7"
    and "\<not> unreadable_retry_after oc"
  shows "sleep_time r oc =
           Inr (case retry_after_seconds limit oc of
                  Some (Suc s) \<Rightarrow> Suc s
                | _ \<Rightarrow> if k = 0 then 0 else RETRY_BACKOFF_FACTOR * 2 ^ k)"
proof -
  have b: "get_backoff_time r = (if k = 0 then 0 else RETRY_BACKOFF_FACTOR * 2 ^ k)"
    using assms(1,4,5) by (rule get_backoff_time_history)
  show ?thesis
  proof (cases oc)
    case (Reply resp)
    show ?thesis
    proof (cases "retry_after resp")
      case None
      with Reply assms(2) b show ?thesis
        by (simp add: sleep_time_def get_retry_after_def retry_after_seconds_def)
    next
      case (Some h)
      with Reply assms(6) have "h \<noteq> Unparsable" "h \<noteq> Empty"
        by (auto simp: unreadable_retry_after_def)
      then obtain n where n: "parse_retry_after r h = Inr n"
        and s: "retry_after_seconds limit oc = Some n"
        using Reply Some assms(3)
        by (cases h) (auto simp: parse_retry_after_def retry_after_seconds_def)
      from Reply Some n assms(2) b
      have "sleep_time r oc = Inr (if n \<noteq> 0 then n
                                    else if k = 0 then 0 else RETRY_BACKOFF_FACTOR * 2 ^ k)"
        by (simp add: sleep_time_def get_retry_after_def)
      with s show ?thesis by (cases n) simp_all
    qed
  next
    case ConnectTimeoutError
    with b show ?thesis by (simp add: sleep_time_def retry_after_seconds_def)
  next
    case ReadError
    with b show ?thesis by (simp add: sleep_time_def retry_after_seconds_def)
  next
    case OtherError
    with b show ?thesis by (simp add: sleep_time_def retry_after_seconds_def)
  qed
qed

lemma run_fromI:
  assumes "requests tr < requests tr'" "requests tr' \<le> requests tr + n + 1"
    and "length (sleeps tr') + b + 1 = l + requests tr'"
    and "take (length (sleeps tr)) (sleeps tr') = sleeps tr"
    and "\<And>k. requests tr \<le> k \<Longrightarrow> Suc k < requests tr' \<Longrightarrow>
              retried (server k) \<and> \<not> unreadable_retry_after (server k)
              \<and> sleeps tr' ! (l + (k - b)) =
                  (case retry_after_seconds limit (server k) of
                     Some (Suc s) \<Rightarrow> Suc s
                   | _ \<Rightarrow> if k - b = 0 then 0 else RETRY_BACKOFF_FACTOR * 2 ^ (k - b))"
    and "\<And>e. res = Inl e \<Longrightarrow>
              retried (server (requests tr' - 1))
              \<and> ((e = RetryError \<or> e = ConnectionError)
                    \<and> requests tr' = requests tr + n + 1
                    \<and> \<not> (\<exists>response. server (requests tr' - 1) = Reply response
                                      \<and> status_code response \<notin> set (status_forcelist retry_strategy))
                  \<or> e = InvalidHeader \<and> requests tr' < requests tr + n + 1
                    \<and> unreadable_retry_after (server (requests tr' - 1)))"
    and "\<And>response. res = Inr response \<Longrightarrow>
              server (requests tr' - 1) = Reply response
              \<and> status_code response \<notin> set (status_forcelist retry_strategy)
              \<and> (requests tr' < requests tr + n + 1 \<longrightarrow> \<not> retried (Reply response))"
  shows "run_from server limit n b l tr (res, tr')"
  unfolding run_from_def prod.case using assms by blast

lemma run_fromD:
  assumes "run_from server limit n b l tr (res, tr')"
  shows "requests tr < requests tr'" "requests tr' \<le> requests tr + n + 1"
    and "length (sleeps tr') + b + 1 = l + requests tr'"
    and "take (length (sleeps tr)) (sleeps tr') = sleeps tr"
    and "\<And>k. requests tr \<le> k \<Longrightarrow> Suc k < requests tr' \<Longrightarrow>
              retried (server k) \<and> \<not> unreadable_retry_after (server k)
              \<and> sleeps tr' ! (l + (k - b)) =
                  (case retry_after_seconds limit (server k) of
                     Some (Suc s) \<Rightarrow> Suc s
                   | _ \<Rightarrow> if k - b = 0 then 0 else RETRY_BACKOFF_FACTOR * 2 ^ (k - b))"
    and "\<And>e. res = Inl e \<Longrightarrow>
              retried (server (requests tr' - 1))
              \<and> ((e = RetryError \<or> e = ConnectionError)
                    \<and> requests tr' = requests tr + n + 1
                    \<and> \<not> (\<exists>response. server (requests tr' - 1) = Reply response
                                      \<and> status_code response \<notin> set (status_forcelist retry_strategy))
                  \<or> e = InvalidHeader \<and> requests tr' < requests tr + n + 1
                    \<and> unreadable_retry_after (server (requests tr' - 1)))"
    and "\<And>response. res = Inr response \<Longrightarrow>
              server (requests tr' - 1) = Reply response
              \<and> status_code response \<notin> set (status_forcelist retry_strategy)
              \<and> (requests tr' < requests tr + n + 1 \<longrightarrow> \<not> retried (Reply response))"
  using assms unfolding run_from_def prod.case by blast+

lemma urlopen_GET_run:
  assumes "backoff_factor r = RETRY_BACKOFF_FACTOR"
    and "status_forcelist r = [500, 502, 503, 504]"
    and "allowed_methods r = [''GET'', ''HEAD'']"
    and "respect_retry_after_header r"
    and "raise_on_status r"
    and "retry_after_max r = limit"
    and "total r = int n"
    and "length (history r) + b = requests tr"
    and "length (sleeps tr) = l + length (history r)"
    and "length (history r) + n < 7"
  shows "run_from server limit n b l tr (urlopen ''GET'' server r tr)"
  using assms
proof (induction n arbitrary: r tr)
  case 0
  let ?oc = "server (requests tr)"
  let ?tr1 = "tr\<lparr>requests := requests tr + 1\<rparr>"
  have get: "is_method_retryable r ''GET''"
    using 0 by (simp add: is_method_retryable_def)
  show ?case
  proof (cases "case ?oc of
                  Reply resp \<Rightarrow> is_retry r ''GET'' (status_code resp) (has_retry_after resp)
                | _ \<Rightarrow> True")
    case False
    then obtain resp where resp: "?oc = Reply resp"
      and no: "\<not> is_retry r ''GET'' (status_code resp) (has_retry_after resp)"
      by (cases ?oc) auto
    from no get 0 have nf: "status_code resp \<notin> set (status_forcelist retry_strategy)"
      by (auto simp: is_retry_def retry_strategy_def)
    have run: "urlopen ''GET'' server r tr = (Inr resp, ?tr1)"
      by (rule urlopen_final [where server = server and tr = tr, OF resp no])
    show ?thesis
      unfolding run using resp nf 0 by (intro run_fromI) simp_all
  next
    case True
    define e where "e = (case ?oc of Reply resp \<Rightarrow> RetryError | _ \<Rightarrow> ConnectionError)"
    from get 0 have "increment r ''GET'' ?oc = Inl e"
      by (simp add: increment_def is_exhausted_def Let_def e_def)
    from urlopen_exhausted [where server = server and tr = tr, OF True this] 0
    have run: "urlopen ''GET'' server r tr = (Inl e, ?tr1)" by simp
    have e: "e = RetryError \<or> e = ConnectionError"
      by (cases ?oc) (simp_all add: e_def)
    have forced: "\<not> (\<exists>response. ?oc = Reply response
                      \<and> status_code response \<notin> set (status_forcelist retry_strategy))"
      using True 0 by (cases ?oc) (auto simp: retry_strategy_def dest: is_retry_total_0)
    have again: "retried ?oc"
      using forced by (cases ?oc) (auto simp: retried_iff retry_strategy_def)
    show ?thesis
      unfolding run using e forced again 0 by (intro run_fromI) simp_all
  qed
next
  case (Suc n)
  let ?oc = "server (requests tr)"
  let ?tr1 = "tr\<lparr>requests := requests tr + 1\<rparr>"
  have get: "is_method_retryable r ''GET''"
    using Suc.prems by (simp add: is_method_retryable_def)
  have same: "is_retry r ''GET'' s h = is_retry retry_strategy ''GET'' s h" for s h
    using Suc.prems
    by (auto simp: is_retry_def is_method_retryable_def retry_strategy_def MAX_RETRIES_def)
  show ?case
  proof (cases "case ?oc of
                  Reply resp \<Rightarrow> is_retry r ''GET'' (status_code resp) (has_retry_after resp)
                | _ \<Rightarrow> True")
    case False
    then obtain resp where resp: "?oc = Reply resp"
      and no: "\<not> is_retry r ''GET'' (status_code resp) (has_retry_after resp)"
      by (cases ?oc) auto
    from no get Suc.prems have nf: "status_code resp \<notin> set (status_forcelist retry_strategy)"
      by (auto simp: is_retry_def retry_strategy_def)
    from no same have nr: "\<not> retried (Reply resp)" by (simp add: retried_def)
    have run: "urlopen ''GET'' server r tr = (Inr resp, ?tr1)"
      by (rule urlopen_final [where server = server and tr = tr, OF resp no])
    show ?thesis
      unfolding run using resp nf nr Suc.prems by (intro run_fromI) simp_all
  next
    case True
    define r' where "r' = r\<lparr>total := total r - 1,
                            history := history r @
                              [case ?oc of Reply resp \<Rightarrow> Some (status_code resp) | _ \<Rightarrow> None]\<rparr>"
    define k where "k = length (history r)"
    from get Suc.prems have inc: "increment r ''GET'' ?oc = Inr r'"
      by (simp add: increment_def is_exhausted_def Let_def r'_def)
    have again: "retried ?oc"
    proof (cases ?oc)
      case (Reply resp)
      with True same show ?thesis by (simp add: retried_def)
    qed (simp_all add: retried_def)
    have r'1: "backoff_factor r' = RETRY_BACKOFF_FACTOR" "respect_retry_after_header r'"
      "retry_after_max r' = limit" "length (history r') = Suc k" "k < 7"
      using Suc.prems by (simp_all add: r'_def k_def)
    have kb: "requests tr - b = k" "k + b = requests tr" "length (sleeps tr) = l + k"
      using Suc.prems by (simp_all add: k_def)
    show ?thesis
    proof (cases "unreadable_retry_after ?oc")
      case True
      with r'1 have "sleep_time r' ?oc = Inl InvalidHeader"
        by (intro sleep_time_unreadable)
      from urlopen_invalid [where server = server and tr = tr, OF \<open>case ?oc of
                  Reply resp \<Rightarrow> is_retry r ''GET'' (status_code resp) (has_retry_after resp)
                | _ \<Rightarrow> True\<close> inc this]
      have run: "urlopen ''GET'' server r tr = (Inl InvalidHeader, ?tr1)" .
      show ?thesis
        unfolding run using True again Suc.prems by (intro run_fromI) simp_all
    next
      case False
      define seconds where
        "seconds = (case retry_after_seconds limit ?oc of
                      Some (Suc s) \<Rightarrow> Suc s
                    | _ \<Rightarrow> if k = 0 then 0 else RETRY_BACKOFF_FACTOR * 2 ^ k)"
      define tr2 where "tr2 = tr\<lparr>requests := requests tr + 1, sleeps := sleeps tr @ [seconds]\<rparr>"
      from r'1 False have slp: "sleep_time r' ?oc = Inr seconds"
        unfolding seconds_def by (intro sleep_time_readable)
      have step: "urlopen ''GET'' server r tr = urlopen ''GET'' server r' tr2"
        unfolding tr2_def
        by (rule urlopen_retry [where server = server and tr = tr, OF \<open>case ?oc of
                  Reply resp \<Rightarrow> is_retry r ''GET'' (status_code resp) (has_retry_after resp)
                | _ \<Rightarrow> True\<close> inc slp])
      have rq: "requests tr2 = Suc (requests tr)" by (simp add: tr2_def)
      have sl: "sleeps tr2 = sleeps tr @ [seconds]" by (simp add: tr2_def)
      have "run_from server limit n b l tr2 (urlopen ''GET'' server r' tr2)"
        using Suc.prems by (intro Suc.IH) (simp_all add: r'_def tr2_def)
      moreover obtain res tr' where run: "urlopen ''GET'' server r' tr2 = (res, tr')"
        by (cases "urlopen ''GET'' server r' tr2")
      ultimately have rf: "run_from server limit n b l tr2 (res, tr')" by simp
      note d = run_fromD [OF rf]
      have d4: "take (Suc (length (sleeps tr))) (sleeps tr') = sleeps tr @ [seconds]"
        using d(4) by (simp add: sl)
      have t1: "take (length (sleeps tr)) (sleeps tr') = sleeps tr"
      proof -
        have "take (length (sleeps tr)) (sleeps tr')
                = take (length (sleeps tr)) (take (Suc (length (sleeps tr))) (sleeps tr'))"
          by (simp add: min_def)
        also have "\<dots> = take (length (sleeps tr)) (sleeps tr @ [seconds])"
          by (simp only: d4)
        also have "\<dots> = sleeps tr" by simp
        finally show ?thesis .
      qed
      have t2: "sleeps tr' ! (l + k) = seconds"
      proof -
        have "sleeps tr' ! (l + k) = take (Suc (length (sleeps tr))) (sleeps tr') ! (l + k)"
          using kb by simp
        also have "\<dots> = (sleeps tr @ [seconds]) ! (l + k)"
          by (simp only: d4)
        also have "\<dots> = seconds" using kb by (simp add: nth_append)
        finally show ?thesis .
      qed
      show ?thesis
        unfolding step run
      proof (rule run_fromI)
        show "requests tr < requests tr'" using d(1) rq by simp
        show "requests tr' \<le> requests tr + Suc n + 1" using d(2) rq by simp
        show "length (sleeps tr') + b + 1 = l + requests tr'" by (rule d(3))
        show "take (length (sleeps tr)) (sleeps tr') = sleeps tr" by (rule t1)
      next
        fix j
        assume j: "requests tr \<le> j" "Suc j < requests tr'"
        show "retried (server j) \<and> \<not> unreadable_retry_after (server j)
              \<and> sleeps tr' ! (l + (j - b)) =
                  (case retry_after_seconds limit (server j) of
                     Some (Suc s) \<Rightarrow> Suc s
                   | _ \<Rightarrow> if j - b = 0 then 0 else RETRY_BACKOFF_FACTOR * 2 ^ (j - b))"
        proof (cases "j = requests tr")
          case True
          show ?thesis
            unfolding True kb(1) using again False t2 by (simp add: seconds_def)
        next
          case False
          with j rq have "requests tr2 \<le> j" by simp
          then show ?thesis using j(2) by (rule d(5))
        qed
      next
        fix e
        assume "res = Inl e"
        from d(6) [OF this] rq
        show "retried (server (requests tr' - 1))
              \<and> ((e = RetryError \<or> e = ConnectionError)
                    \<and> requests tr' = requests tr + Suc n + 1
                    \<and> \<not> (\<exists>response. server (requests tr' - 1) = Reply response
                                      \<and> status_code response \<notin> set (status_forcelist retry_strategy))
                  \<or> e = InvalidHeader \<and> requests tr' < requests tr + Suc n + 1
                    \<and> unreadable_retry_after (server (requests tr' - 1)))"
          by simp
      next
        fix response
        assume "res = Inr response"
        from d(7) [OF this] rq
        show "server (requests tr' - 1) = Reply response
              \<and> status_code response \<notin> set (status_forcelist retry_strategy)
              \<and> (requests tr' < requests tr + Suc n + 1 \<longrightarrow> \<not> retried (Reply response))"
          by simp
      qed
    qed
  qed
qed

lemma adapter_send_run:
  "run_from server limit 3 (requests tr) (length (sleeps tr)) tr
     (adapter_send (retry_strategy\<lparr>retry_after_max := limit\<rparr>) server tr)"
  unfolding adapter_send_def
  by (rule urlopen_GET_run) (simp_all add: retry_strategy_def MAX_RETRIES_def)

lemma adapter_send_requests:
  assumes "adapter_send (retry_strategy\<lparr>retry_after_max := limit\<rparr>) server tr = (res, tr')"
  shows "requests tr < requests tr'" "requests tr' \<le> requests tr + 4"
    and "\<And>e. res = Inl e \<Longrightarrow> is_RequestException e"
proof -
  from adapter_send_run [of server limit tr] assms
  have rf: "run_from server limit 3 (requests tr) (length (sleeps tr)) tr (res, tr')" by simp
  from run_fromD(1,2) [OF rf]
  show "requests tr < requests tr'" "requests tr' \<le> requests tr + 4" by simp_all
  fix e
  assume "res = Inl e"
  from run_fromD(6) [OF rf this] show "is_RequestException e"
    by (auto simp: is_RequestException_def)
qed

subsection \<open>The session\<close>

lemma get_redirect_target_location:
  "get_redirect_target r = Some t \<Longrightarrow> location r = Some t"
  by (simp add: get_redirect_target_def split: if_splits)

lemma read_content_cases:
  "read_content r = Inl e \<Longrightarrow> e = ChunkedEncodingError"
  "read_content r = Inr r' \<Longrightarrow> r' = r"
  by (auto simp: read_content_def split: option.splits location_header.splits if_splits)

lemma send_no_redirects_requests:
  assumes "send_no_redirects (retry_strategy\<lparr>retry_after_max := limit\<rparr>) server tr = (res, tr')"
  shows "requests tr < requests tr'" "requests tr' \<le> requests tr + 4"
    and "\<And>e. res = Inl e \<Longrightarrow>
           is_RequestException e
           \<or> e = ValueError
             \<and> (\<exists>n response. server n = Reply response \<and> location response = Some Malformed)"
    and "\<And>r. res = Inr r \<Longrightarrow> \<exists>n. server n = Reply r"
proof -
  let ?s = "retry_strategy\<lparr>retry_after_max := limit\<rparr>"
  obtain res0 tr0 where a: "adapter_send ?s server tr = (res0, tr0)"
    by (cases "adapter_send ?s server tr")
  from adapter_send_run [of server limit tr] a
  have rf: "run_from server limit 3 (requests tr) (length (sleeps tr)) tr (res0, tr0)" by simp
  from assms a have tr: "tr' = tr0"
    by (auto simp: send_no_redirects_def split: sum.splits if_splits)
  from adapter_send_requests(1,2) [OF a] tr
  show "requests tr < requests tr'" "requests tr' \<le> requests tr + 4" by simp_all
  show "is_RequestException e
        \<or> e = ValueError
          \<and> (\<exists>n response. server n = Reply response \<and> location response = Some Malformed)"
    if e: "res = Inl e" for e
  proof (cases res0)
    case (Inl e0)
    with assms a e have "e = e0" by (simp add: send_no_redirects_def)
    with adapter_send_requests(3) [OF a Inl] show ?thesis by simp
  next
    case (Inr r0)
    from run_fromD(7) [OF rf Inr] have from_server: "server (requests tr0 - 1) = Reply r0"
      by simp
    show ?thesis
    proof (cases "get_redirect_target r0 = Some Malformed")
      case True
      with assms a e Inr have "e = ValueError" by (simp add: send_no_redirects_def)
      moreover from True have "location r0 = Some Malformed"
        by (rule get_redirect_target_location)
      ultimately show ?thesis using from_server by blast
    next
      case False
      with assms a e Inr have "read_content r0 = Inl e" by (simp add: send_no_redirects_def)
      then have "e = ChunkedEncodingError" by (rule read_content_cases)
      then show ?thesis by (simp add: is_RequestException_def)
    qed
  qed
  show "\<exists>n. server n = Reply r" if r: "res = Inr r" for r
  proof (cases res0)
    case (Inl e0)
    with assms a r show ?thesis by (simp add: send_no_redirects_def)
  next
    case (Inr r0)
    from run_fromD(7) [OF rf Inr] have from_server: "server (requests tr0 - 1) = Reply r0"
      by simp
    from assms a r Inr have "read_content r0 = Inr r"
      by (simp add: send_no_redirects_def split: if_splits)
    then have "r = r0" by (rule read_content_cases)
    with from_server show ?thesis by blast
  qed
qed

lemma resolve_redirects_requests:
  assumes "resolve_redirects (retry_strategy\<lparr>retry_after_max := limit\<rparr>) server followed resp tr
             = (res, tr')"
    and "\<exists>n. server n = Reply resp"
  shows "requests tr \<le> requests tr'
         \<and> requests tr' \<le> requests tr + 4 * (DEFAULT_REDIRECT_LIMIT - followed)
         \<and> (\<forall>e. res = Inl e \<longrightarrow>
               is_RequestException e
               \<or> e = ValueError
                 \<and> (\<exists>n response. server n = Reply response
                                   \<and> location response = Some Malformed))
         \<and> (\<forall>response. res = Inr response \<longrightarrow>
               get_redirect_target response = None
               \<or> get_redirect_target response = Some NoTarget)"
  using assms
proof (induction "DEFAULT_REDIRECT_LIMIT - followed" arbitrary: followed resp tr)
  case 0
  then have lim: "DEFAULT_REDIRECT_LIMIT \<le> followed" by simp
  from "0.prems"(1) lim show ?case
    by (subst (asm) resolve_redirects.simps)
       (auto simp: is_RequestException_def split: option.splits location_header.splits)
next
  case (Suc m)
  let ?s = "retry_strategy\<lparr>retry_after_max := limit\<rparr>"
  from Suc.hyps have lim: "\<not> DEFAULT_REDIRECT_LIMIT \<le> followed"
    and m: "m = DEFAULT_REDIRECT_LIMIT - Suc followed"
    and d: "DEFAULT_REDIRECT_LIMIT - followed = Suc (DEFAULT_REDIRECT_LIMIT - Suc followed)"
    by simp_all
  show ?case
  proof (cases "get_redirect_target resp = Some Requestable")
    case False
    have mal: "get_redirect_target resp = Some Malformed
               \<Longrightarrow> \<exists>n response. server n = Reply response \<and> location response = Some Malformed"
      using Suc.prems(2) get_redirect_target_location by blast
    from Suc.prems(1) False lim mal show ?thesis
      by (subst (asm) resolve_redirects.simps)
         (auto simp: is_RequestException_def split: option.splits location_header.splits)
  next
    case True
    obtain res1 tr1 where s: "send_no_redirects ?s server tr = (res1, tr1)"
      by (cases "send_no_redirects ?s server tr")
    note f = send_no_redirects_requests [OF s]
    show ?thesis
    proof (cases res1)
      case (Inl e1)
      with Suc.prems(1) True lim s have "res = Inl e1" "tr' = tr1"
        by (subst (asm) resolve_redirects.simps, simp)+
      with f(1,2) f(3) [OF Inl] d show ?thesis by simp
    next
      case (Inr resp1)
      with Suc.prems(1) True lim s
      have "resolve_redirects ?s server (Suc followed) resp1 tr1 = (res, tr')"
        by (subst (asm) resolve_redirects.simps) simp
      from Suc.hyps(1) [OF m this f(4) [OF Inr]] f(1,2) d show ?thesis by simp
    qed
  qed
qed

lemma session_get_requests:
  "1 \<le> requests (snd (session_get (retry_strategy\<lparr>retry_after_max := limit\<rparr>) server))
   \<and> requests (snd (session_get (retry_strategy\<lparr>retry_after_max := limit\<rparr>) server))
       \<le> 4 * (1 + DEFAULT_REDIRECT_LIMIT)
   \<and> (\<forall>e. fst (session_get (retry_strategy\<lparr>retry_after_max := limit\<rparr>) server) = Inl e
          \<longrightarrow> is_RequestException e
              \<or> e = ValueError
                \<and> (\<exists>n response. server n = Reply response
                                  \<and> location response = Some Malformed))"
proof -
  let ?s = "retry_strategy\<lparr>retry_after_max := limit\<rparr>"
  let ?tr0 = "\<lparr>requests = 0, sleeps = []\<rparr>"
  obtain res0 tr0 where a: "adapter_send ?s server ?tr0 = (res0, tr0)"
    by (cases "adapter_send ?s server ?tr0")
  note f = adapter_send_requests [OF a]
  show ?thesis
  proof (cases res0)
    case (Inl e0)
    with a have "session_get ?s server = (Inl e0, tr0)" by (simp add: session_get_def)
    with f Inl show ?thesis by (simp add: DEFAULT_REDIRECT_LIMIT_def)
  next
    case (Inr r0)
    from adapter_send_run [of server limit ?tr0] a
    have "run_from server limit 3 (requests ?tr0) (length (sleeps ?tr0)) ?tr0 (res0, tr0)"
      by simp
    from run_fromD(7) [OF this Inr] have from_server: "\<exists>n. server n = Reply r0" by blast
    obtain res1 tr1 where r: "resolve_redirects ?s server 0 r0 tr0 = (res1, tr1)"
      by (cases "resolve_redirects ?s server 0 r0 tr0")
    note g = resolve_redirects_requests [OF r from_server]
    from a Inr r have run: "session_get ?s server
                              = (case res1 of Inl e \<Rightarrow> Inl e | Inr response \<Rightarrow> read_content response, tr1)"
      by (simp add: session_get_def split: sum.splits)
    have "is_RequestException e
          \<or> e = ValueError
            \<and> (\<exists>n response. server n = Reply response \<and> location response = Some Malformed)"
      if "fst (session_get ?s server) = Inl e" for e
    proof (cases res1)
      case (Inl e1)
      with that run have "e = e1" by simp
      with g Inl show ?thesis by blast
    next
      case (Inr r1)
      with that run have "read_content r1 = Inl e" by simp
      then have "e = ChunkedEncodingError" by (rule read_content_cases)
      then show ?thesis by (simp add: is_RequestException_def)
    qed
    then show ?thesis using f(1,2) g run by (simp add: DEFAULT_REDIRECT_LIMIT_def)
  qed
qed

lemma session_get_no_redirect:
  assumes "case fst (adapter_send max_retries server \<lparr>requests = 0, sleeps = []\<rparr>) of
             Inl e \<Rightarrow> True
           | Inr response \<Rightarrow> \<not> is_redirect response"
  shows "session_get max_retries server
           = send_no_redirects max_retries server \<lparr>requests = 0, sleeps = []\<rparr>"
proof (cases "adapter_send max_retries server \<lparr>requests = 0, sleeps = []\<rparr>")
  case (Pair res0 tr0)
  show ?thesis
  proof (cases res0)
    case (Inl e0)
    with Pair show ?thesis by (simp add: session_get_def send_no_redirects_def)
  next
    case (Inr r0)
    with Pair assms have n: "get_redirect_target r0 = None"
      by (simp add: get_redirect_target_def)
    then have "resolve_redirects max_retries server 0 r0 tr0 = (Inr r0, tr0)"
      by (subst resolve_redirects.simps) simp
    with Pair Inr n show ?thesis by (simp add: session_get_def send_no_redirects_def)
  qed
qed

lemma session_get_resolve:
  assumes "adapter_send max_retries server \<lparr>requests = 0, sleeps = []\<rparr> = (Inr r, tr)"
  shows "snd (session_get max_retries server)
           = snd (resolve_redirects max_retries server 0 r tr)"
  using assms
  by (cases "resolve_redirects max_retries server 0 r tr")
     (simp add: session_get_def split: sum.splits)

lemma resolve_redirects_follows:
  assumes "get_redirect_target resp = Some Requestable"
    and "followed < DEFAULT_REDIRECT_LIMIT"
  shows "requests tr
           < requests (snd (resolve_redirects (retry_strategy\<lparr>retry_after_max := limit\<rparr>)
                              server followed resp tr))"
proof -
  let ?s = "retry_strategy\<lparr>retry_after_max := limit\<rparr>"
  obtain res1 tr1 where s: "send_no_redirects ?s server tr = (res1, tr1)"
    by (cases "send_no_redirects ?s server tr")
  note f = send_no_redirects_requests [OF s]
  show ?thesis
  proof (cases res1)
    case (Inl e1)
    with assms s have "resolve_redirects ?s server followed resp tr = (Inl e1, tr1)"
      by (subst resolve_redirects.simps) simp
    with f(1) show ?thesis by simp
  next
    case (Inr resp1)
    obtain res tr' where r: "resolve_redirects ?s server (Suc followed) resp1 tr1 = (res, tr')"
      by (cases "resolve_redirects ?s server (Suc followed) resp1 tr1")
    from Inr assms s r have "resolve_redirects ?s server followed resp tr = (res, tr')"
      by (subst resolve_redirects.simps) simp
    moreover from resolve_redirects_requests [OF r f(4) [OF Inr]]
    have "requests tr1 \<le> requests tr'" by simp
    ultimately show ?thesis using f(1) by simp
  qed
qed

lemma scrape_raises_fetch_error:
  "fst (session_get session server) = Inl e \<Longrightarrow> scrape_crl_author_page pad session server = Inl e"
  by (simp add: scrape_crl_author_page_def)

lemma scrape_raises_HTTPError:
  "fst (session_get session server) = Inr response
   \<Longrightarrow> 400 \<le> status_code response \<and> status_code response < 600
   \<Longrightarrow> scrape_crl_author_page pad session server = Inl HTTPError"
  by (simp add: scrape_crl_author_page_def raise_for_status_def)

subsection \<open>The retry policy\<close>

lemmas http_eval =
  session_get_def adapter_send_def send_no_redirects_def read_content_def urlopen.simps
  resolve_redirects.simps
  get_redirect_target_def is_redirect_def REDIRECT_STATI_def DEFAULT_REDIRECT_LIMIT_def
  is_retry_def is_method_retryable_def has_retry_after_def increment_def is_exhausted_def
  sleep_time_def get_retry_after_def parse_retry_after_def get_backoff_time_def
  retry_strategy_def MAX_RETRIES_def RETRY_BACKOFF_FACTOR_def DEFAULT_RETRY_AFTER_MAX_def
  RETRY_AFTER_STATUS_CODES_def DEFAULT_BACKOFF_MAX_def Let_def

text \<open>
  A server that always answers 503 is asked four times, not three: \<open>total=MAX_RETRIES\<close>
  counts the retries, which come after the first attempt. And a 429 that carries a
  \<open>Retry-After\<close> header is retried, though 429 is not in the list of statuses, after a
  sleep of the seconds of that header.
\<close>

theorem session_get_four_attempts_counterexample:
  "session_get retry_strategy
     (\<lambda>n. Reply \<lparr>status_code = 503, retry_after = None, location = None, content_ok = True,
                  content = Tag ''[document]'' [] []\<rparr>)
     = (Inl RetryError, \<lparr>requests = 4, sleeps = [0, 2, 4]\<rparr>)
   \<and> session_get retry_strategy
     (\<lambda>n. if n = 0
           then Reply \<lparr>status_code = 429, retry_after = Some (Seconds 7), location = None,
                       content_ok = True, content = Tag ''[document]'' [] []\<rparr>
           else Reply \<lparr>status_code = 200, retry_after = None, location = None,
                       content_ok = True, content = Tag ''[document]'' [] []\<rparr>)
     = (Inr \<lparr>status_code = 200, retry_after = None, location = None, content_ok = True,
             content = Tag ''[document]'' [] []\<rparr>,
        \<lparr>requests = 2, sleeps = [7]\<rparr>)"
  by (simp add: http_eval)

text \<open>
  A redirect is answered by a new request, which has its own retries: here the first
  request is redirected, the second meets a 503 and is retried at once, and the third
  is answered. A redirect whose \<open>Retry-After\<close> cannot be read is still followed, for it is
  not retried; a 503 with such a header raises after one request.
\<close>

lemma session_get_redirect_example:
  "session_get retry_strategy
     (\<lambda>n. if n = 0
           then Reply \<lparr>status_code = 301, retry_after = Some Unparsable,
                       location = Some Requestable, content_ok = True,
                       content = Tag ''[document]'' [] []\<rparr>
           else if n = 1
           then Reply \<lparr>status_code = 503, retry_after = None, location = None,
                       content_ok = True, content = Tag ''[document]'' [] []\<rparr>
           else Reply \<lparr>status_code = 200, retry_after = None, location = None,
                       content_ok = True, content = Tag ''[document]'' [] []\<rparr>)
     = (Inr \<lparr>status_code = 200, retry_after = None, location = None, content_ok = True,
             content = Tag ''[document]'' [] []\<rparr>,
        \<lparr>requests = 3, sleeps = [0]\<rparr>)
   \<and> session_get retry_strategy
     (\<lambda>n. Reply \<lparr>status_code = 503, retry_after = Some Unparsable, location = None,
                  content_ok = True, content = Tag ''[document]'' [] []\<rparr>)
     = (Inl InvalidHeader, \<lparr>requests = 1, sleeps = []\<rparr>)
   \<and> session_get retry_strategy
     (\<lambda>n. Reply \<lparr>status_code = 503, retry_after = Some (Seconds 99999), location = None,
                  content_ok = True, content = Tag ''[document]'' [] []\<rparr>)
     = (Inl RetryError, \<lparr>requests = 4, sleeps = [21600, 21600, 21600]\<rparr>)
   \<and> session_get retry_strategy
     (\<lambda>n. Reply \<lparr>status_code = 301, retry_after = None, location = Some Malformed,
                  content_ok = True, content = Tag ''[document]'' [] []\<rparr>)
     = (Inl ValueError, \<lparr>requests = 1, sleeps = []\<rparr>)
   \<and> fst (session_get retry_strategy
     (\<lambda>n. Reply \<lparr>status_code = 302, retry_after = None, location = Some Requestable,
                  content_ok = True, content = Tag ''[document]'' [] []\<rparr>))
     = Inl TooManyRedirects
   \<and> requests (snd (session_get retry_strategy
     (\<lambda>n. Reply \<lparr>status_code = 302, retry_after = None, location = Some Requestable,
                  content_ok = True, content = Tag ''[document]'' [] []\<rparr>))) = 31"
  by (simp add: http_eval)

text \<open>
  C9, as amended. Let \<open>s\<close> be the strategy of the program, with the limit on
  \<open>Retry-After\<close> that the library has (\<open>None\<close> for a library without one), \<open>hop\<close> one call
  of the adapter, which sends one request of the session with its retries, begun at any
  trace \<open>tr\<close>, and \<open>run\<close> the whole fetch.

  One call of the adapter makes at least one and at most four attempts: the first and up
  to \<open>MAX_RETRIES\<close> = 3 retries, with one sleep between two attempts. An attempt is
  followed by another only if it met a failure of the network, a response with status
  500, 502, 503 or 504, or a response with a \<open>Retry-After\<close> header that is not empty and
  status 413, 429 or 503; and a response is retried for the methods \<open>GET\<close> and \<open>HEAD\<close>
  only. Before the retry after the \<open>j\<close>-th failure in a row (counted from 0) the call
  sleeps for the seconds of \<open>Retry-After\<close>, at most the limit, when the response has that
  header and the seconds are not 0; otherwise not at all for \<open>j = 0\<close> and
  \<open>RETRY_BACKOFF_FACTOR * 2 ^ j\<close> seconds after that. When the call raises, its last
  attempt met something to retry, and either all four attempts were made and the error
  is that of exhaustion, or the \<open>Retry-After\<close> header of the last response cannot be
  read and the error is \<open>InvalidHeader\<close>. When the call returns a response, that is the
  answer to its last attempt, its status is none of 500, 502, 503 and 504, and unless it
  is the fourth attempt the response is none to retry.

  The fetch follows at most \<open>DEFAULT_REDIRECT_LIMIT\<close> = 30 redirects, with one call of the
  adapter for each request, so that it sends at least one request and at most 4 * 31;
  when the answer to the first call is no redirect, the fetch is this one call. When
  the answer to the first call is a redirect to a URL that can be requested, the fetch
  sends a further request. When the fetch raises, the scrape raises the same exception,
  which is a request exception, or \<open>ValueError\<close> after a \<open>Location\<close> that cannot be read;
  when it returns a response with a status from 400 to 599, the scrape raises
  \<open>HTTPError\<close>.
\<close>

theorem session_get_retry_policy:
  assumes s: "s = retry_strategy\<lparr>retry_after_max := limit\<rparr>"
    and hop: "hop = urlopen ''GET'' server s tr"
    and run: "run = session_get s server"
  shows
  "requests tr < requests (snd hop)
   \<and> requests (snd hop) \<le> requests tr + 1 + nat MAX_RETRIES
   \<and> nat MAX_RETRIES = 3
   \<and> length (sleeps (snd hop)) + requests tr + 1 = length (sleeps tr) + requests (snd hop)
   \<and> take (length (sleeps tr)) (sleeps (snd hop)) = sleeps tr
   \<and> (\<forall>j. Suc j < requests (snd hop) - requests tr \<longrightarrow>
         retried (server (requests tr + j))
         \<and> sleeps (snd hop) ! (length (sleeps tr) + j) =
             (case retry_after_seconds limit (server (requests tr + j)) of
                Some (Suc n) \<Rightarrow> Suc n
              | _ \<Rightarrow> if j = 0 then 0 else RETRY_BACKOFF_FACTOR * 2 ^ j))
   \<and> (\<forall>j response n. Suc j < requests (snd hop) - requests tr
         \<and> server (requests tr + j) = Reply response
         \<and> retry_after response = Some (Seconds (Suc n))
         \<and> (case limit of None \<Rightarrow> True | Some m \<Rightarrow> Suc n \<le> m)
         \<longrightarrow> sleeps (snd hop) ! (length (sleeps tr) + j) = Suc n)
   \<and> (\<forall>j. Suc j < requests (snd hop) - requests tr
         \<and> (case server (requests tr + j) of
               Reply response \<Rightarrow> retry_after response = None
             | _ \<Rightarrow> True)
         \<longrightarrow> sleeps (snd hop) ! (length (sleeps tr) + j) =
               (if j = 0 then 0 else RETRY_BACKOFF_FACTOR * 2 ^ j))
   \<and> (retried oc \<longleftrightarrow>
        (case oc of
           Reply response \<Rightarrow>
             status_code response \<in> {500, 502, 503, 504}
             \<or> has_retry_after response \<and> status_code response \<in> {413, 429, 503}
         | _ \<Rightarrow> True))
   \<and> (is_retry s m st h \<longrightarrow> m = ''GET'' \<or> m = ''HEAD'')
   \<and> (\<forall>e. fst hop = Inl e \<longrightarrow>
         retried (server (requests (snd hop) - 1))
         \<and> ((e = RetryError \<or> e = ConnectionError)
               \<and> requests (snd hop) = requests tr + 1 + nat MAX_RETRIES
             \<or> e = InvalidHeader \<and> unreadable_retry_after (server (requests (snd hop) - 1))))
   \<and> (\<forall>response. fst hop = Inr response \<longrightarrow>
         server (requests (snd hop) - 1) = Reply response
         \<and> status_code response \<notin> {500, 502, 503, 504}
         \<and> (requests (snd hop) < requests tr + 1 + nat MAX_RETRIES
              \<longrightarrow> \<not> retried (Reply response)))
   \<and> 1 \<le> requests (snd run)
   \<and> requests (snd run) \<le> (1 + nat MAX_RETRIES) * (1 + DEFAULT_REDIRECT_LIMIT)
   \<and> ((case fst (urlopen ''GET'' server s \<lparr>requests = 0, sleeps = []\<rparr>) of
          Inl e \<Rightarrow> True
        | Inr response \<Rightarrow> \<not> is_redirect response)
        \<longrightarrow> snd run = snd (urlopen ''GET'' server s \<lparr>requests = 0, sleeps = []\<rparr>))
   \<and> (\<forall>response. fst (urlopen ''GET'' server s \<lparr>requests = 0, sleeps = []\<rparr>) = Inr response
         \<and> get_redirect_target response = Some Requestable
         \<longrightarrow> requests (snd (urlopen ''GET'' server s \<lparr>requests = 0, sleeps = []\<rparr>))
               < requests (snd run))
   \<and> (\<forall>e. fst run = Inl e \<longrightarrow>
         (is_RequestException e
          \<or> e = ValueError
            \<and> (\<exists>n response. server n = Reply response \<and> location response = Some Malformed))
         \<and> scrape_crl_author_page pad s server = Inl e)
   \<and> (\<forall>response. fst run = Inr response
         \<and> 400 \<le> status_code response \<and> status_code response < 600
         \<longrightarrow> scrape_crl_author_page pad s server = Inl HTTPError)"
proof -
  obtain res tr' where h: "hop = (res, tr')" by (cases hop)
  from adapter_send_run [of server limit tr] h
  have rf: "run_from server limit 3 (requests tr) (length (sleeps tr)) tr (res, tr')"
    by (simp add: adapter_send_def s hop)
  note d = run_fromD [OF rf]
  have mr: "nat MAX_RETRIES = 3" by (simp add: MAX_RETRIES_def)
  have fl: "set (status_forcelist retry_strategy) = {500, 502, 503, 504}"
    by (simp add: retry_strategy_def)
  have c1: "requests tr < requests (snd hop)" using d(1) by (simp add: h)
  have c2: "requests (snd hop) \<le> requests tr + 1 + nat MAX_RETRIES"
    using d(2) by (simp add: h mr)
  have c4: "length (sleeps (snd hop)) + requests tr + 1 = length (sleeps tr) + requests (snd hop)"
    using d(3) by (simp add: h)
  have c5: "take (length (sleeps tr)) (sleeps (snd hop)) = sleeps tr"
    using d(4) by (simp add: h)
  have sl: "retried (server (requests tr + j))
         \<and> \<not> unreadable_retry_after (server (requests tr + j))
         \<and> sleeps (snd hop) ! (length (sleeps tr) + j) =
             (case retry_after_seconds limit (server (requests tr + j)) of
                Some (Suc n) \<Rightarrow> Suc n
              | _ \<Rightarrow> if j = 0 then 0 else RETRY_BACKOFF_FACTOR * 2 ^ j)"
    if "Suc j < requests (snd hop) - requests tr" for j
  proof -
    from that have "requests tr \<le> requests tr + j" "Suc (requests tr + j) < requests tr'"
      by (simp_all add: h)
    from d(5) [OF this] show ?thesis unfolding h snd_conv add_diff_cancel_left' .
  qed
  have c6: "\<forall>j. Suc j < requests (snd hop) - requests tr \<longrightarrow>
         retried (server (requests tr + j))
         \<and> sleeps (snd hop) ! (length (sleeps tr) + j) =
             (case retry_after_seconds limit (server (requests tr + j)) of
                Some (Suc n) \<Rightarrow> Suc n
              | _ \<Rightarrow> if j = 0 then 0 else RETRY_BACKOFF_FACTOR * 2 ^ j)"
    using sl by blast
  have c7: "\<forall>j response n. Suc j < requests (snd hop) - requests tr
         \<and> server (requests tr + j) = Reply response
         \<and> retry_after response = Some (Seconds (Suc n))
         \<and> (case limit of None \<Rightarrow> True | Some m \<Rightarrow> Suc n \<le> m)
         \<longrightarrow> sleeps (snd hop) ! (length (sleeps tr) + j) = Suc n"
  proof (intro allI impI)
    fix j response n
    assume a: "Suc j < requests (snd hop) - requests tr
         \<and> server (requests tr + j) = Reply response
         \<and> retry_after response = Some (Seconds (Suc n))
         \<and> (case limit of None \<Rightarrow> True | Some m \<Rightarrow> Suc n \<le> m)"
    then have "retry_after_seconds limit (server (requests tr + j)) = Some (Suc n)"
      by (cases limit) (simp_all add: retry_after_seconds_def min_def)
    with sl [of j] a show "sleeps (snd hop) ! (length (sleeps tr) + j) = Suc n" by simp
  qed
  have c8: "\<forall>j. Suc j < requests (snd hop) - requests tr
         \<and> (case server (requests tr + j) of
               Reply response \<Rightarrow> retry_after response = None
             | _ \<Rightarrow> True)
         \<longrightarrow> sleeps (snd hop) ! (length (sleeps tr) + j) =
               (if j = 0 then 0 else RETRY_BACKOFF_FACTOR * 2 ^ j)"
  proof (intro allI impI)
    fix j
    assume a: "Suc j < requests (snd hop) - requests tr
         \<and> (case server (requests tr + j) of
               Reply response \<Rightarrow> retry_after response = None
             | _ \<Rightarrow> True)"
    then have "retry_after_seconds limit (server (requests tr + j)) = None"
      by (cases "server (requests tr + j)") (simp_all add: retry_after_seconds_def)
    with sl [of j] a
    show "sleeps (snd hop) ! (length (sleeps tr) + j) =
            (if j = 0 then 0 else RETRY_BACKOFF_FACTOR * 2 ^ j)"
      by simp
  qed
  have c9: "retried oc \<longleftrightarrow>
        (case oc of
           Reply response \<Rightarrow>
             status_code response \<in> {500, 502, 503, 504}
             \<or> has_retry_after response \<and> status_code response \<in> {413, 429, 503}
         | _ \<Rightarrow> True)"
    by (rule retried_iff)
  have c10: "is_retry s m st h \<longrightarrow> m = ''GET'' \<or> m = ''HEAD''"
    by (auto simp: s is_retry_retry_strategy)
  have c11: "\<forall>e. fst hop = Inl e \<longrightarrow>
         retried (server (requests (snd hop) - 1))
         \<and> ((e = RetryError \<or> e = ConnectionError)
               \<and> requests (snd hop) = requests tr + 1 + nat MAX_RETRIES
             \<or> e = InvalidHeader \<and> unreadable_retry_after (server (requests (snd hop) - 1)))"
  proof (intro allI impI)
    fix e
    assume "fst hop = Inl e"
    then have "res = Inl e" by (simp add: h)
    from d(6) [OF this]
    show "retried (server (requests (snd hop) - 1))
         \<and> ((e = RetryError \<or> e = ConnectionError)
               \<and> requests (snd hop) = requests tr + 1 + nat MAX_RETRIES
             \<or> e = InvalidHeader \<and> unreadable_retry_after (server (requests (snd hop) - 1)))"
      by (auto simp: h mr)
  qed
  have c12: "\<forall>response. fst hop = Inr response \<longrightarrow>
         server (requests (snd hop) - 1) = Reply response
         \<and> status_code response \<notin> {500, 502, 503, 504}
         \<and> (requests (snd hop) < requests tr + 1 + nat MAX_RETRIES
              \<longrightarrow> \<not> retried (Reply response))"
  proof (intro allI impI)
    fix response
    assume "fst hop = Inr response"
    then have "res = Inr response" by (simp add: h)
    from d(7) [OF this] fl
    show "server (requests (snd hop) - 1) = Reply response
         \<and> status_code response \<notin> {500, 502, 503, 504}
         \<and> (requests (snd hop) < requests tr + 1 + nat MAX_RETRIES
              \<longrightarrow> \<not> retried (Reply response))"
      by (simp add: h mr)
  qed
  from session_get_requests [of limit server]
  have c13: "1 \<le> requests (snd run)"
    and c14: "requests (snd run) \<le> (1 + nat MAX_RETRIES) * (1 + DEFAULT_REDIRECT_LIMIT)"
    and ex: "\<forall>e. fst run = Inl e \<longrightarrow>
               is_RequestException e
               \<or> e = ValueError
                 \<and> (\<exists>n response. server n = Reply response \<and> location response = Some Malformed)"
    by (simp_all add: run s mr)
  have c15: "(case fst (urlopen ''GET'' server s \<lparr>requests = 0, sleeps = []\<rparr>) of
          Inl e \<Rightarrow> True
        | Inr response \<Rightarrow> \<not> is_redirect response)
        \<longrightarrow> snd run = snd (urlopen ''GET'' server s \<lparr>requests = 0, sleeps = []\<rparr>)"
  proof
    assume "case fst (urlopen ''GET'' server s \<lparr>requests = 0, sleeps = []\<rparr>) of
          Inl e \<Rightarrow> True
        | Inr response \<Rightarrow> \<not> is_redirect response"
    then have "session_get s server = send_no_redirects s server \<lparr>requests = 0, sleeps = []\<rparr>"
      by (intro session_get_no_redirect) (simp add: adapter_send_def)
    then show "snd run = snd (urlopen ''GET'' server s \<lparr>requests = 0, sleeps = []\<rparr>)"
      by (cases "urlopen ''GET'' server s \<lparr>requests = 0, sleeps = []\<rparr>")
         (simp add: run send_no_redirects_def adapter_send_def split: sum.splits if_splits)
  qed
  have c15b: "\<forall>response. fst (urlopen ''GET'' server s \<lparr>requests = 0, sleeps = []\<rparr>) = Inr response
         \<and> get_redirect_target response = Some Requestable
         \<longrightarrow> requests (snd (urlopen ''GET'' server s \<lparr>requests = 0, sleeps = []\<rparr>))
               < requests (snd run)"
  proof (intro allI impI)
    fix response
    assume a: "fst (urlopen ''GET'' server s \<lparr>requests = 0, sleeps = []\<rparr>) = Inr response
         \<and> get_redirect_target response = Some Requestable"
    obtain tr1 where
      "adapter_send s server \<lparr>requests = 0, sleeps = []\<rparr> = (Inr response, tr1)"
      using a by (cases "urlopen ''GET'' server s \<lparr>requests = 0, sleeps = []\<rparr>")
                 (simp add: adapter_send_def)
    moreover from this have "snd run = snd (resolve_redirects s server 0 response tr1)"
      unfolding run by (rule session_get_resolve)
    moreover have "requests tr1 < requests (snd (resolve_redirects s server 0 response tr1))"
      unfolding s using a
      by (intro resolve_redirects_follows) (simp_all add: DEFAULT_REDIRECT_LIMIT_def)
    ultimately
    show "requests (snd (urlopen ''GET'' server s \<lparr>requests = 0, sleeps = []\<rparr>))
            < requests (snd run)"
      by (simp add: adapter_send_def)
  qed
  have c16: "\<forall>e. fst run = Inl e \<longrightarrow>
         (is_RequestException e
          \<or> e = ValueError
            \<and> (\<exists>n response. server n = Reply response \<and> location response = Some Malformed))
         \<and> scrape_crl_author_page pad s server = Inl e"
  proof (intro allI impI conjI)
    fix e
    assume e: "fst run = Inl e"
    with ex show "is_RequestException e
          \<or> e = ValueError
            \<and> (\<exists>n response. server n = Reply response \<and> location response = Some Malformed)"
      by blast
    from e show "scrape_crl_author_page pad s server = Inl e"
      unfolding run by (rule scrape_raises_fetch_error)
  qed
  have c17: "\<forall>response. fst run = Inr response
         \<and> 400 \<le> status_code response \<and> status_code response < 600
         \<longrightarrow> scrape_crl_author_page pad s server = Inl HTTPError"
    by (auto simp: run scrape_raises_HTTPError)
  show ?thesis
    by (intro conjI) (fact c1 c2 mr c4 c5 c6 c7 c8 c9 c10 c11 c12 c13 c14 c15 c15b c16 c17)+
qed

theorem session_get_retry_policy_witness:
  "requests (snd (session_get retry_strategy
      (\<lambda>n. if n = 0
            then Reply \<lparr>status_code = 503, retry_after = Some (Seconds 7), location = None,
                        content_ok = True, content = Tag ''[document]'' [] []\<rparr>
            else if n = 1
            then Reply \<lparr>status_code = 502, retry_after = None, location = None,
                        content_ok = True, content = Tag ''[document]'' [] []\<rparr>
            else Reply \<lparr>status_code = 404, retry_after = None, location = None,
                        content_ok = True, content = Tag ''[document]'' [] []\<rparr>))) = 3
   \<and> retried (Reply \<lparr>status_code = 502, retry_after = None, location = None,
                      content_ok = True, content = Tag ''[document]'' [] []\<rparr>)
   \<and> sleeps (snd (session_get retry_strategy
      (\<lambda>n. if n = 0
            then Reply \<lparr>status_code = 503, retry_after = Some (Seconds 7), location = None,
                        content_ok = True, content = Tag ''[document]'' [] []\<rparr>
            else if n = 1
            then Reply \<lparr>status_code = 502, retry_after = None, location = None,
                        content_ok = True, content = Tag ''[document]'' [] []\<rparr>
            else Reply \<lparr>status_code = 404, retry_after = None, location = None,
                        content_ok = True, content = Tag ''[document]'' [] []\<rparr>))) ! 0 = 7
   \<and> sleeps (snd (session_get retry_strategy
      (\<lambda>n. if n = 0
            then Reply \<lparr>status_code = 503, retry_after = Some (Seconds 7), location = None,
                        content_ok = True, content = Tag ''[document]'' [] []\<rparr>
            else if n = 1
            then Reply \<lparr>status_code = 502, retry_after = None, location = None,
                        content_ok = True, content = Tag ''[document]'' [] []\<rparr>
            else Reply \<lparr>status_code = 404, retry_after = None, location = None,
                        content_ok = True, content = Tag ''[document]'' [] []\<rparr>))) ! 1 = 2
   \<and> scrape_crl_author_page False retry_strategy
      (\<lambda>n. if n = 0
            then Reply \<lparr>status_code = 503, retry_after = Some (Seconds 7), location = None,
                        content_ok = True, content = Tag ''[document]'' [] []\<rparr>
            else if n = 1
            then Reply \<lparr>status_code = 502, retry_after = None, location = None,
                        content_ok = True, content = Tag ''[document]'' [] []\<rparr>
            else Reply \<lparr>status_code = 404, retry_after = None, location = None,
                        content_ok = True, content = Tag ''[document]'' [] []\<rparr>)
       = Inl HTTPError"
proof -
  define busy where "busy = \<lparr>status_code = 503, retry_after = Some (Seconds 7), location = None,
                        content_ok = True, content = Tag ''[document]'' [] []\<rparr>"
  define bad where "bad = \<lparr>status_code = 502, retry_after = None, location = None,
                        content_ok = True, content = Tag ''[document]'' [] []\<rparr>"
  define gone where "gone = \<lparr>status_code = 404, retry_after = None, location = None,
                        content_ok = True, content = Tag ''[document]'' [] []\<rparr>"
  define server where
    "server = (\<lambda>n::nat. if n = 0 then Reply busy else if n = 1 then Reply bad else Reply gone)"
  define tr0 where "tr0 = \<lparr>requests = 0, sleeps = []\<rparr>"
  define hop where "hop = urlopen ''GET'' server retry_strategy tr0"
  define run where "run = session_get retry_strategy server"
  have s: "retry_strategy = retry_strategy\<lparr>retry_after_max := Some DEFAULT_RETRY_AFTER_MAX\<rparr>"
    by (simp add: retry_strategy_def)
  have "hop = (Inr gone, \<lparr>requests = 3, sleeps = [7, 2]\<rparr>)"
    unfolding hop_def server_def busy_def bad_def gone_def tr0_def by (simp add: http_eval)
  then have n: "requests (snd hop) = 3" and g: "fst hop = Inr gone" by simp_all
  have nr: "\<not> is_redirect gone" by (simp add: gone_def is_redirect_def)
  have fr: "fst run = Inr gone"
    unfolding run_def server_def busy_def bad_def gone_def by (simp add: http_eval)
  have s0: "server 0 = Reply busy" and s1: "server 1 = Reply bad" by (simp_all add: server_def)
  have ra: "retry_after busy = Some (Seconds (Suc 6))" by (simp add: busy_def)
  have rb: "retry_after bad = None" by (simp add: bad_def)
  have lim: "Suc 6 \<le> DEFAULT_RETRY_AFTER_MAX" by (simp add: DEFAULT_RETRY_AFTER_MAX_def)
  have st: "400 \<le> status_code gone \<and> status_code gone < 600" by (simp add: gone_def)
  have t0: "requests tr0 = 0" "length (sleeps tr0) = 0" by (simp_all add: tr0_def)
  note p = session_get_retry_policy
             [where s = retry_strategy and limit = "Some DEFAULT_RETRY_AFTER_MAX"
                and server = server and tr = tr0 and hop = hop and run = run and pad = False,
              OF s hop_def run_def]
  from p have "\<forall>j. Suc j < requests (snd hop) - requests tr0 \<longrightarrow>
         retried (server (requests tr0 + j))
         \<and> sleeps (snd hop) ! (length (sleeps tr0) + j) =
             (case retry_after_seconds (Some DEFAULT_RETRY_AFTER_MAX) (server (requests tr0 + j)) of
                Some (Suc n) \<Rightarrow> Suc n
              | _ \<Rightarrow> if j = 0 then 0 else RETRY_BACKOFF_FACTOR * 2 ^ j)"
    by blast
  from this [rule_format, of 1] n t0 s1 have w1: "retried (Reply bad)" by simp
  from p have "\<forall>j response n. Suc j < requests (snd hop) - requests tr0
         \<and> server (requests tr0 + j) = Reply response
         \<and> retry_after response = Some (Seconds (Suc n))
         \<and> (case Some DEFAULT_RETRY_AFTER_MAX of None \<Rightarrow> True | Some m \<Rightarrow> Suc n \<le> m)
         \<longrightarrow> sleeps (snd hop) ! (length (sleeps tr0) + j) = Suc n"
    by blast
  from this [rule_format, of 0 busy 6] n t0 s0 ra lim
  have w2: "sleeps (snd hop) ! 0 = 7" by simp
  from p have "\<forall>j. Suc j < requests (snd hop) - requests tr0
         \<and> (case server (requests tr0 + j) of
               Reply response \<Rightarrow> retry_after response = None
             | _ \<Rightarrow> True)
         \<longrightarrow> sleeps (snd hop) ! (length (sleeps tr0) + j) =
               (if j = 0 then 0 else RETRY_BACKOFF_FACTOR * 2 ^ j)"
    by blast
  from this [rule_format, of 1] n t0 s1 rb
  have w3: "sleeps (snd hop) ! 1 = 2"
    by (simp add: RETRY_BACKOFF_FACTOR_def)
  from p have "(case fst (urlopen ''GET'' server retry_strategy \<lparr>requests = 0, sleeps = []\<rparr>) of
          Inl e \<Rightarrow> True
        | Inr response \<Rightarrow> \<not> is_redirect response)
        \<longrightarrow> snd run = snd (urlopen ''GET'' server retry_strategy \<lparr>requests = 0, sleeps = []\<rparr>)"
    by blast
  with g nr have sr: "snd run = snd hop" by (simp add: hop_def tr0_def)
  from p have "\<forall>response. fst run = Inr response
         \<and> 400 \<le> status_code response \<and> status_code response < 600
         \<longrightarrow> scrape_crl_author_page False retry_strategy server = Inl HTTPError"
    by blast
  with fr st have w4: "scrape_crl_author_page False retry_strategy server = Inl HTTPError"
    by blast
  from n w1 w2 w3 w4 sr show ?thesis
    unfolding run_def server_def busy_def bad_def gone_def by simp
qed

end
